theory Spec2Isabelle
  imports Main "HOL-Library.AList" "HOL-Library.Word"
begin

section \<open>The Miqa assertion builder (\<^verbatim>\<open>streamlit_app.py\<close>)\<close>

text \<open>
  The program is a script: two schema dictionaries, a merge of the core fields with the
  fields of the selected check type, and one loop that shows a widget per field and
  collects the values in the dictionary \<^verbatim>\<open>output\<close>.

  Conventions of the embedding.
  \<^item> A Python \<^verbatim>\<open>str\<close> is a \<^typ>\<open>string\<close> holding its UTF-8 bytes.
  \<^item> A Python \<^verbatim>\<open>dict\<close> is an association list in insertion order; assigning to a key
    that is present keeps its position (\<^const>\<open>AList.update\<close>).
  \<^item> A variable that holds \<^verbatim>\<open>None\<close> or a \<^verbatim>\<open>str\<close> is a \<^typ>\<open>string option\<close>.
  \<^item> What the script reads from outside is a parameter, gathered in the record
    \<open>world\<close>: the state of the widgets, the identifiers drawn by \<^verbatim>\<open>uuid.uuid4()\<close>
    and the verdict of \<^verbatim>\<open>ast.parse\<close>. A model of a part of Python's expression grammar
    says which verdict a parser of Python gives on the texts the model decides.
  \<^item> Names are the script's, but for four that Isabelle reserves or that clash: the key
    \<^verbatim>\<open>"type"\<close> is the field \<open>ftype\<close> (as the loop's variable is called), the key
    \<^verbatim>\<open>"value"\<close> the field \<open>val\<close>, the dictionary \<^verbatim>\<open>output\<close> the field \<open>output_doc\<close>, and
    the dictionary \<^verbatim>\<open>fields\<close> the function \<open>fields_for\<close> of the check type.
\<close>

subsection \<open>Field descriptors and the schema dictionaries\<close>

text \<open>
  The value under \<^verbatim>\<open>"default"\<close> is a string or the callable
  \<^verbatim>\<open>lambda: f"assertion_{uuid.uuid4().hex[:8]}"\<close>, the only callable of the script.
\<close>

datatype py_default = Str string | Lambda

text \<open>
  A descriptor \<^verbatim>\<open>meta\<close>. Every descriptor of the script has the key \<^verbatim>\<open>"type"\<close>. The
  flags are only ever read through \<^verbatim>\<open>meta.get(...)\<close> in a condition, so an absent flag
  is \<open>False\<close>; the other keys are absent (\<open>None\<close>) or present.
\<close>

record meta =
  ftype :: string
  required :: bool
  optional :: bool
  default :: "py_default option"
  placeholder :: "string option"
  options :: "string list option"
  value_from_parent :: bool
  val :: "string option"

definition field :: "string \<Rightarrow> meta" where
  "field t = \<lparr>ftype = t, required = False, optional = False, default = None,
     placeholder = None, options = None, value_from_parent = False, val = None\<rparr>"

definition core_fields :: "(string \<times> meta) list" where
  "core_fields =
    [(''name'', (field ''string'')\<lparr>required := True\<rparr>),
     (''id'', (field ''string'')\<lparr>optional := True, default := Some Lambda\<rparr>),
     (''failtype'', (field ''select'')\<lparr>options := Some [''fail'', ''warn''],
        default := Some (Str ''fail'')\<rparr>),
     (''check_type'', (field ''fixed'')\<lparr>value_from_parent := True\<rparr>)]"

definition known_processors :: "string list" where
  "known_processors =
    [''fasta-summary'', ''bam-index-stats'', ''vcf-header'', ''flagstat'',
     ''bcftools_stats'', ''miqa_steps_log'', ''bam_reads_by_name'',
     ''bam_region_sample'', ''miqa_ls_txt'']"

text \<open>
  \<^verbatim>\<open>schemas\<close>; the one-key layer \<^verbatim>\<open>"fields"\<close> of each entry is left out. The quote and
  the backslash of the placeholder texts are written by their codes.
\<close>

definition schemas :: "(string \<times> (string \<times> meta) list) list" where
  "schemas =
    [(''postproc_results'',
       [(''processor_key'', (field ''select'')\<lparr>options := Some known_processors,
           required := True\<rparr>),
        (''stat'', (field ''expression'')\<lparr>placeholder :=
           Some (''e.g. data.format == '' @ [CHR 0x27] @ ''fasta'' @ [CHR 0x27]
                 @ '' and data.valid_format'')\<rparr>),
        (''postprocessed_file_pattern'', (field ''string'')\<lparr>placeholder :=
           Some ''e.g. .*fasta''\<rparr>),
        (''item_typ1e'', (field ''fixed'')\<lparr>val := Some ''outputfile''\<rparr>)]),
     (''tabular_mdo_eval'',
       [(''stat'', (field ''expression'')\<lparr>placeholder :=
           Some (''e.g. data.rows.map('' @ [CHR 0x27] @ ''%PF'' @ [CHR 0x27]
                 @ '').mean() > 0.9'')\<rparr>),
        (''file_rules'', (field ''string'')\<lparr>placeholder :=
           Some (''e.g. .*'' @ [CHR 0x5C] @ ''.csv$'')\<rparr>),
        (''delimiter'', (field ''string'')\<lparr>placeholder := Some '',''\<rparr>),
        (''comment_character'', (field ''string'')\<lparr>optional := True,
           placeholder := Some ''#''\<rparr>)])]"

subsection \<open>Errors\<close>

text \<open>
  The exceptions the script can raise and does not catch: a subscript \<^verbatim>\<open>d[k]\<close> on an
  absent key, and an exception of \<^verbatim>\<open>ast.parse\<close> other than \<^verbatim>\<open>SyntaxError\<close>.
\<close>

datatype py_error = KeyError string | Uncaught string

subsection \<open>The merge of line 47\<close>

text \<open>\<^verbatim>\<open>{**a, **b}\<close>: the entries of \<open>a\<close>, then each entry of \<open>b\<close> assigned in order.\<close>

definition dict_merge :: "('k \<times> 'v) list \<Rightarrow> ('k \<times> 'v) list \<Rightarrow> ('k \<times> 'v) list" where
  "dict_merge a b = fold (\<lambda>(k, v). AList.update k v) b a"

text \<open>\<^verbatim>\<open>fields = {**core_fields, **schemas[check_type]["fields"]}\<close>, as a function of the check type.\<close>

definition fields_for :: "string \<Rightarrow> py_error + (string \<times> meta) list" where
  "fields_for check_type =
    (case map_of schemas check_type of
       None \<Rightarrow> Inl (KeyError check_type)
     | Some specific \<Rightarrow> Inr (dict_merge core_fields specific))"

subsection \<open>The generated identifier\<close>

text \<open>
  \<^verbatim>\<open>uuid.uuid4()\<close> is a 128-bit number; \<^verbatim>\<open>.hex\<close> is \<^verbatim>\<open>'%032x' % self.int\<close>, its 32
  hexadecimal digits from the most significant one, in lower case.
\<close>

definition hex_digit :: "nat \<Rightarrow> char" where
  "hex_digit d = ''0123456789abcdef'' ! d"

definition hex :: "128 word \<Rightarrow> string" where
  "hex u = map (\<lambda>i. hex_digit (unat u div 16 ^ (31 - i) mod 16)) [0..<32]"

text \<open>The body of the callable: \<^verbatim>\<open>f"assertion_{uuid.uuid4().hex[:8]}"\<close>.\<close>

definition assertion_id :: "128 word \<Rightarrow> string" where
  "assertion_id u = ''assertion_'' @ take 8 (hex u)"

text \<open>The pattern \<^verbatim>\<open>assertion_\<close> followed by exactly 8 hexadecimal characters.\<close>

definition hexadecimal :: "char \<Rightarrow> bool" where
  "hexadecimal c = (c \<in> set ''0123456789abcdefABCDEF'')"

definition id_pattern :: "string \<Rightarrow> bool" where
  "id_pattern s =
    (take 10 s = ''assertion_'' \<and> length (drop 10 s) = 8 \<and> list_all hexadecimal (drop 10 s))"

subsection \<open>What the script reads from outside\<close>

text \<open>
  The verdict of \<^verbatim>\<open>ast.parse(value, mode="eval")\<close>: the text parses, or the parser raises
  \<^verbatim>\<open>SyntaxError\<close> with a message \<^verbatim>\<open>e.msg\<close>, or it raises something else (for a null
  byte or a nesting too deep), which the \<^verbatim>\<open>except SyntaxError\<close> clause does not catch.
\<close>

datatype parse_result = Parsed | SyntaxError string | OtherError string

text \<open>
  One run of the script: \<open>typed\<close> is the text the user has entered in the text widget
  with that label (\<open>None\<close>: the widget still holds the value it was created with),
  \<open>picked\<close> the position of the option the user has picked in the select box with that
  label (\<open>None\<close>: the pre-selected option stands), \<open>uuid4 n\<close> the \<open>n\<close>-th identifier
  that \<^verbatim>\<open>uuid.uuid4()\<close> returns in this run, \<open>ast_parse\<close> the parser.
\<close>

record world =
  typed :: "string \<rightharpoonup> string"
  picked :: "string \<rightharpoonup> nat"
  uuid4 :: "nat \<Rightarrow> 128 word"
  ast_parse :: "string \<Rightarrow> parse_result"

text \<open>\<^verbatim>\<open>st.text_input(label, value=..., placeholder=...)\<close> and \<^verbatim>\<open>st.text_area\<close>.\<close>

definition text_input :: "world \<Rightarrow> string \<Rightarrow> string \<Rightarrow> string \<Rightarrow> string" where
  "text_input w label v ph = (case typed w label of None \<Rightarrow> v | Some s \<Rightarrow> s)"

definition text_area :: "world \<Rightarrow> string \<Rightarrow> string \<Rightarrow> string \<Rightarrow> string" where
  "text_area w label v ph = (case typed w label of None \<Rightarrow> v | Some s \<Rightarrow> s)"

text \<open>
  \<^verbatim>\<open>st.selectbox(label, options=..., index=...)\<close> returns \<^verbatim>\<open>None\<close> for an empty option
  list and otherwise one of the options: the one the user picked, or the one at
  \<open>index\<close>. A select box offers nothing outside its list, so a position beyond the list
  counts as no pick.
\<close>

definition selectbox :: "world \<Rightarrow> string \<Rightarrow> string list \<Rightarrow> nat \<Rightarrow> string option" where
  "selectbox w label opts index =
    (if opts = [] then None
     else case picked w label of
            None \<Rightarrow> Some (opts ! index)
          | Some i \<Rightarrow> Some (opts ! (if i < length opts then i else index)))"

subsection \<open>\<^verbatim>\<open>str.strip\<close> and \<^verbatim>\<open>list.index\<close>\<close>

text \<open>
  The characters \<^verbatim>\<open>str.strip()\<close> removes are those with \<^verbatim>\<open>str.isspace\<close>: the ASCII
  codes 9 to 13 and 28 to 32, and the code points U+0085, U+00A0, U+1680, U+2000 to
  U+200A, U+2028, U+2029, U+202F, U+205F and U+3000, which take two or three bytes.
\<close>

definition ascii_space :: "char \<Rightarrow> bool" where
  "ascii_space c = (let n = (of_char c :: nat) in (9 \<le> n \<and> n \<le> 13) \<or> (28 \<le> n \<and> n \<le> 32))"

definition wide_spaces :: "string list" where
  "wide_spaces =
    [[CHR 0xC2, CHR 0x85], [CHR 0xC2, CHR 0xA0], [CHR 0xE1, CHR 0x9A, CHR 0x80],
     [CHR 0xE2, CHR 0x80, CHR 0x80], [CHR 0xE2, CHR 0x80, CHR 0x81],
     [CHR 0xE2, CHR 0x80, CHR 0x82], [CHR 0xE2, CHR 0x80, CHR 0x83],
     [CHR 0xE2, CHR 0x80, CHR 0x84], [CHR 0xE2, CHR 0x80, CHR 0x85],
     [CHR 0xE2, CHR 0x80, CHR 0x86], [CHR 0xE2, CHR 0x80, CHR 0x87],
     [CHR 0xE2, CHR 0x80, CHR 0x88], [CHR 0xE2, CHR 0x80, CHR 0x89],
     [CHR 0xE2, CHR 0x80, CHR 0x8A], [CHR 0xE2, CHR 0x80, CHR 0xA8],
     [CHR 0xE2, CHR 0x80, CHR 0xA9], [CHR 0xE2, CHR 0x80, CHR 0xAF],
     [CHR 0xE2, CHR 0x81, CHR 0x9F], [CHR 0xE3, CHR 0x80, CHR 0x80]]"

text \<open>The number of bytes of the whitespace character at the head of \<open>s\<close>, 0 if none.\<close>

definition space_len :: "string list \<Rightarrow> string \<Rightarrow> nat" where
  "space_len wide s =
    (case s of
       [] \<Rightarrow> 0
     | c # _ \<Rightarrow> if ascii_space c then 1
                else if take 2 s \<in> set wide then 2
                else if take 3 s \<in> set wide then 3
                else 0)"

fun lstrip :: "string list \<Rightarrow> string \<Rightarrow> string" where
  "lstrip wide [] = []"
| "lstrip wide (c # cs) =
    (if space_len wide (c # cs) = 0 then c # cs
     else lstrip wide (drop (space_len wide (c # cs) - 1) cs))"

text \<open>The right end is stripped on the reversed text, against the reversed byte patterns.\<close>

definition strip :: "string \<Rightarrow> string" where
  "strip s = rev (lstrip (map rev wide_spaces) (rev (lstrip wide_spaces s)))"

text \<open>\<^verbatim>\<open>xs.index(x)\<close>: the first position of \<open>x\<close>; \<open>None\<close> stands for \<^verbatim>\<open>ValueError\<close>.\<close>

primrec list_index :: "'a list \<Rightarrow> 'a \<Rightarrow> nat option" where
  "list_index [] x = None"
| "list_index (y # ys) x = (if y = x then Some 0 else map_option Suc (list_index ys x))"

subsection \<open>The loop of lines 53 to 80\<close>

text \<open>What \<^verbatim>\<open>st.success\<close> and \<^verbatim>\<open>st.error\<close> put on the page.\<close>

datatype alert = st_success string | st_error string

definition valid_note :: string where
  "valid_note = [CHR 0xE2, CHR 0x9C, CHR 0x85] @
     '' Syntactically valid expression (this may still not be a valid expression for your specific dataset; try the assertion to confirm).''"

definition invalid_prefix :: string where
  "invalid_prefix = [CHR 0xE2, CHR 0x9D, CHR 0x8C] @ '' Invalid expression: ''"

text \<open>The state of the loop: the dictionary, the page, the number of identifiers drawn.\<close>

record state =
  output_doc :: "(string \<times> string) list"
  alerts :: "alert list"
  drawn :: nat

definition init :: state where
  "init = \<lparr>output_doc = [], alerts = [], drawn = 0\<rparr>"

text \<open>
  Lines 55, 59 and 60: \<^verbatim>\<open>default = meta.get("default", "")\<close>, called when it is callable.
  The result is the default and the number of identifiers drawn so far.
\<close>

definition call_default :: "world \<Rightarrow> meta \<Rightarrow> nat \<Rightarrow> string \<times> nat" where
  "call_default w meta n =
    (case default meta of
       None \<Rightarrow> ('''', n)
     | Some (Str d) \<Rightarrow> (d, n)
     | Some Lambda \<Rightarrow> (assertion_id (uuid4 w n), Suc n))"

text \<open>Line 56: \<^verbatim>\<open>placeholder = meta.get("placeholder", "")\<close>.\<close>

definition get_placeholder :: "meta \<Rightarrow> string" where
  "get_placeholder meta = (case placeholder meta of None \<Rightarrow> '''' | Some p \<Rightarrow> p)"

text \<open>Line 63: \<^verbatim>\<open>check_type if meta.get("value_from_parent") else meta["value"]\<close>.\<close>

definition fixed_value :: "string \<Rightarrow> meta \<Rightarrow> py_error + string" where
  "fixed_value check_type meta =
    (if value_from_parent meta then Inr check_type
     else case val meta of None \<Rightarrow> Inl (KeyError ''value'') | Some v \<Rightarrow> Inr v)"

text \<open>
  Lines 66 to 77, the chain over the kinds other than \<^verbatim>\<open>fixed\<close>: the \<^verbatim>\<open>value\<close> after
  the chain (\<^verbatim>\<open>None\<close> when no branch is taken) and the alerts shown. In line 77 the
  test \<^verbatim>\<open>default in meta["options"]\<close> guards the call of \<^verbatim>\<open>index\<close>.
\<close>

definition widget :: "world \<Rightarrow> string \<Rightarrow> meta \<Rightarrow> string \<Rightarrow> py_error + (string option \<times> alert list)" where
  "widget w key meta d =
    (if ftype meta = ''string'' then
       Inr (Some (text_input w key d (get_placeholder meta)), [])
     else if ftype meta = ''expression'' then
       (let v = text_area w key d (get_placeholder meta) in
        if strip v \<noteq> [] then
          (case ast_parse w v of
             Parsed \<Rightarrow> Inr (Some v, [st_success valid_note])
           | SyntaxError msg \<Rightarrow> Inr (Some v, [st_error (invalid_prefix @ msg)])
           | OtherError e \<Rightarrow> Inl (Uncaught e))
        else Inr (Some v, []))
     else if ftype meta = ''select'' then
       (case options meta of
          None \<Rightarrow> Inl (KeyError ''options'')
        | Some opts \<Rightarrow>
            Inr (selectbox w key opts
                   (case list_index opts d of Some i \<Rightarrow> i | None \<Rightarrow> 0), []))
     else Inr (None, []))"

text \<open>Python's truth value of \<^verbatim>\<open>value\<close>, and the test of line 79.\<close>

definition truthy :: "string option \<Rightarrow> bool" where
  "truthy v = (case v of None \<Rightarrow> False | Some s \<Rightarrow> s \<noteq> [])"

definition included :: "meta \<Rightarrow> string option \<Rightarrow> bool" where
  "included meta v = (truthy v \<or> (optional meta \<and> v = Some ''''))"

text \<open>Lines 79 and 80.\<close>

definition store :: "meta \<Rightarrow> string \<Rightarrow> string option \<Rightarrow> (string \<times> string) list \<Rightarrow> (string \<times> string) list" where
  "store meta key v out =
    (if included meta v then (case v of None \<Rightarrow> out | Some s \<Rightarrow> AList.update key s out)
     else out)"

text \<open>One pass through the body of the loop.\<close>

definition render_field :: "string \<Rightarrow> world \<Rightarrow> string \<times> meta \<Rightarrow> state \<Rightarrow> py_error + state" where
  "render_field check_type w f s =
    (let key = fst f; meta = snd f;
         d = fst (call_default w meta (drawn s));
         n = snd (call_default w meta (drawn s))
     in if ftype meta = ''fixed'' then
          (case fixed_value check_type meta of
             Inl e \<Rightarrow> Inl e
           | Inr v \<Rightarrow> Inr \<lparr>output_doc = AList.update key v (output_doc s), alerts = alerts s, drawn = n\<rparr>)
        else
          (case widget w key meta d of
             Inl e \<Rightarrow> Inl e
           | Inr (v, shown) \<Rightarrow>
               Inr \<lparr>output_doc = store meta key v (output_doc s), alerts = alerts s @ shown,
                    drawn = n\<rparr>))"

text \<open>The loop: an exception ends it.\<close>

fun render :: "string \<Rightarrow> world \<Rightarrow> (string \<times> meta) list \<Rightarrow> state \<Rightarrow> py_error + state" where
  "render check_type w [] s = Inr s"
| "render check_type w (f # fs) s =
    (case render_field check_type w f s of
       Inl e \<Rightarrow> Inl e
     | Inr s' \<Rightarrow> render check_type w fs s')"

text \<open>
  Lines 46 to 80: the check type is picked among the keys of \<^verbatim>\<open>schemas\<close> (the first one
  is pre-selected), the fields are merged and the loop runs on the empty dictionary.
\<close>

definition app :: "world \<Rightarrow> py_error + state" where
  "app w =
    (case selectbox w ''Select Assertion Type'' (map fst schemas) 0 of
       None \<Rightarrow> Inl (KeyError ''None'')
     | Some check_type \<Rightarrow>
         (case fields_for check_type of
            Inl e \<Rightarrow> Inl e
          | Inr fs \<Rightarrow> render check_type w fs init))"

subsection \<open>A part of Python's expression grammar\<close>

text \<open>
  \<^verbatim>\<open>ast.parse(value, mode="eval")\<close> is the parser of CPython, which the script calls and
  does not contain. The model below decides a part of Python's expression grammar and
  says so when it does not decide. A text that it reads as tokens is \<open>Invalid\<close> when its
  brackets do not match (every such text is a syntax error), and \<open>Valid\<close> when it is an
  expression built from names, decimal numbers, plain string literals, the prefix signs,
  the arithmetic and comparison operators, attribute access, calls, subscripts and
  parentheses. Every other text is \<open>Unknown\<close>: keywords, other operators and literals,
  comments, line breaks, leading whitespace (an indentation error in this mode), and
  every text of more than 64 characters (CPython limits the depth of nesting).
\<close>

datatype token = NAME | NUMBER | STRING | SIGN | BINOP | DOT | COMMA | LPAR | RPAR | LSQB | RSQB

datatype lexstate = Start | InName string | InZero | InInt | InFrac | InStr char | AfterStr
  | AfterCmp | AfterEq | AfterBang

definition letter :: "char \<Rightarrow> bool" where
  "letter c = (let n = (of_char c :: nat) in
     (65 \<le> n \<and> n \<le> 90) \<or> (97 \<le> n \<and> n \<le> 122) \<or> n = 95)"

definition digit :: "char \<Rightarrow> bool" where
  "digit c = (let n = (of_char c :: nat) in 48 \<le> n \<and> n \<le> 57)"

definition py_keywords :: "string list" where
  "py_keywords = [''False'', ''None'', ''True'', ''and'', ''as'', ''assert'', ''async'', ''await'',
     ''break'', ''class'', ''continue'', ''def'', ''del'', ''elif'', ''else'', ''except'',
     ''finally'', ''for'', ''from'', ''global'', ''if'', ''import'', ''in'', ''is'', ''lambda'',
     ''nonlocal'', ''not'', ''or'', ''pass'', ''raise'', ''return'', ''try'', ''while'', ''with'',
     ''yield'']"

text \<open>The first character of a token: the tokens it completes and the state it leaves.\<close>

definition start :: "char \<Rightarrow> (token list \<times> lexstate) option" where
  "start c =
    (if c = CHR '' '' \<or> c = CHR 0x09 then Some ([], Start)
     else if letter c then Some ([], InName [c])
     else if c = CHR ''0'' then Some ([], InZero)
     else if digit c then Some ([], InInt)
     else if c = CHR 0x27 \<or> c = CHR 0x22 then Some ([], InStr c)
     else if c = CHR ''('' then Some ([LPAR], Start)
     else if c = CHR '')'' then Some ([RPAR], Start)
     else if c = CHR ''['' then Some ([LSQB], Start)
     else if c = CHR '']'' then Some ([RSQB], Start)
     else if c = CHR '','' then Some ([COMMA], Start)
     else if c = CHR ''.'' then Some ([DOT], Start)
     else if c = CHR ''+'' \<or> c = CHR ''-'' then Some ([SIGN], Start)
     else if c = CHR ''*'' \<or> c = CHR ''/'' \<or> c = CHR ''%'' then Some ([BINOP], Start)
     else if c = CHR ''<'' \<or> c = CHR ''>'' then Some ([], AfterCmp)
     else if c = CHR ''='' then Some ([], AfterEq)
     else if c = CHR ''!'' then Some ([], AfterBang)
     else None)"

text \<open>A token that has ended, followed by the character that ended it.\<close>

definition emit :: "token \<Rightarrow> char \<Rightarrow> (token list \<times> lexstate) option" where
  "emit t c = (case start c of None \<Rightarrow> None | Some (ts, st) \<Rightarrow> Some (t # ts, st))"

definition step :: "lexstate \<Rightarrow> char \<Rightarrow> (token list \<times> lexstate) option" where
  "step st c =
    (case st of
       Start \<Rightarrow> start c
     | InName acc \<Rightarrow>
         if letter c \<or> digit c then Some ([], InName (acc @ [c]))
         else if c = CHR 0x27 \<or> c = CHR 0x22 \<or> acc \<in> set py_keywords then None
         else emit NAME c
     | InZero \<Rightarrow>
         if c = CHR ''.'' then Some ([], InFrac)
         else if letter c \<or> digit c then None
         else emit NUMBER c
     | InInt \<Rightarrow>
         if digit c then Some ([], InInt)
         else if c = CHR ''.'' then Some ([], InFrac)
         else if letter c then None
         else emit NUMBER c
     | InFrac \<Rightarrow>
         if digit c then Some ([], InFrac)
         else if letter c then None
         else emit NUMBER c
     | InStr q \<Rightarrow>
         if c = q then Some ([], AfterStr)
         else if c = CHR 0x5C \<or> (of_char c :: nat) < 32 \<or> 127 \<le> (of_char c :: nat) then None
         else Some ([], InStr q)
     | AfterStr \<Rightarrow>
         if c = CHR 0x27 \<or> c = CHR 0x22 then None else emit STRING c
     | AfterCmp \<Rightarrow>
         if c = CHR ''='' then Some ([BINOP], Start)
         else if c = CHR ''<'' \<or> c = CHR ''>'' then None
         else emit BINOP c
     | AfterEq \<Rightarrow> if c = CHR ''='' then Some ([BINOP], Start) else None
     | AfterBang \<Rightarrow> if c = CHR ''='' then Some ([BINOP], Start) else None)"

text \<open>The end of the text.\<close>

definition finish :: "lexstate \<Rightarrow> token list option" where
  "finish st =
    (case st of
       Start \<Rightarrow> Some []
     | InName acc \<Rightarrow> if acc \<in> set py_keywords then None else Some [NAME]
     | InZero \<Rightarrow> Some [NUMBER]
     | InInt \<Rightarrow> Some [NUMBER]
     | InFrac \<Rightarrow> Some [NUMBER]
     | InStr q \<Rightarrow> None
     | AfterStr \<Rightarrow> Some [STRING]
     | AfterCmp \<Rightarrow> None
     | AfterEq \<Rightarrow> None
     | AfterBang \<Rightarrow> None)"

fun tokens :: "lexstate \<Rightarrow> string \<Rightarrow> token list option" where
  "tokens st [] = finish st"
| "tokens st (c # cs) =
    (case step st c of
       None \<Rightarrow> None
     | Some (ts, st') \<Rightarrow> (case tokens st' cs of None \<Rightarrow> None | Some us \<Rightarrow> Some (ts @ us)))"

text \<open>Brackets match: the stack holds the brackets that are open.\<close>

fun matched :: "token list \<Rightarrow> token list \<Rightarrow> bool" where
  "matched stack [] = (stack = [])"
| "matched stack (t # ts) =
    (if t = LPAR \<or> t = LSQB then matched (t # stack) ts
     else if t = RPAR then (case stack of b # rest \<Rightarrow> b = LPAR \<and> matched rest ts | [] \<Rightarrow> False)
     else if t = RSQB then (case stack of b # rest \<Rightarrow> b = LSQB \<and> matched rest ts | [] \<Rightarrow> False)
     else matched stack ts)"

text \<open>
  The expressions of the model, read from left to right: an operand is expected
  (\<open>Operand\<close>; \<open>FirstArg\<close> right after the parenthesis of a call, where the call may also
  end), or an operand has ended (\<open>After\<close>), or a dot was read (\<open>Attr\<close>). The stack holds
  what is open: a parenthesised expression, the arguments of a call, a subscript.
\<close>

datatype mode = Operand | FirstArg | After | Attr

datatype frame = Group | Call | Sub

fun accepts :: "mode \<Rightarrow> frame list \<Rightarrow> token list \<Rightarrow> bool" where
  "accepts m fs [] = (m = After \<and> fs = [])"
| "accepts m fs (t # ts) =
    (case m of
       Operand \<Rightarrow>
         if t = SIGN then accepts Operand fs ts
         else if t = NAME \<or> t = NUMBER \<or> t = STRING then accepts After fs ts
         else if t = LPAR then accepts Operand (Group # fs) ts
         else False
     | FirstArg \<Rightarrow>
         if t = RPAR then (case fs of Call # rest \<Rightarrow> accepts After rest ts | _ \<Rightarrow> False)
         else if t = SIGN then accepts Operand fs ts
         else if t = NAME \<or> t = NUMBER \<or> t = STRING then accepts After fs ts
         else if t = LPAR then accepts Operand (Group # fs) ts
         else False
     | After \<Rightarrow>
         if t = BINOP \<or> t = SIGN then accepts Operand fs ts
         else if t = DOT then accepts Attr fs ts
         else if t = LPAR then accepts FirstArg (Call # fs) ts
         else if t = LSQB then accepts Operand (Sub # fs) ts
         else if t = RPAR then
           (case fs of Group # rest \<Rightarrow> accepts After rest ts
                     | Call # rest \<Rightarrow> accepts After rest ts
                     | _ \<Rightarrow> False)
         else if t = RSQB then (case fs of Sub # rest \<Rightarrow> accepts After rest ts | _ \<Rightarrow> False)
         else if t = COMMA then (case fs of Call # rest \<Rightarrow> accepts Operand fs ts | _ \<Rightarrow> False)
         else False
     | Attr \<Rightarrow> t = NAME \<and> accepts After fs ts)"

datatype grammar = Valid | Invalid | Unknown

definition py_expr :: "string \<Rightarrow> grammar" where
  "py_expr s =
    (case s of
       [] \<Rightarrow> Unknown
     | c # _ \<Rightarrow>
         if c = CHR '' '' \<or> c = CHR 0x09 \<or> 64 < length s then Unknown
         else (case tokens Start s of
                 None \<Rightarrow> Unknown
               | Some ts \<Rightarrow>
                   if \<not> matched [] ts then Invalid
                   else if accepts Operand [] ts then Valid
                   else Unknown))"

text \<open>
  A parser agrees with the model when it accepts what the model says is valid and raises
  \<^verbatim>\<open>SyntaxError\<close> on what the model says is invalid.
\<close>

definition python_parser :: "(string \<Rightarrow> parse_result) \<Rightarrow> bool" where
  "python_parser p =
    (\<forall>s. (py_expr s = Valid \<longrightarrow> p s = Parsed)
        \<and> (py_expr s = Invalid \<longrightarrow> (\<exists>msg. p s = SyntaxError msg)))"

subsection \<open>Sample runs\<close>

text \<open>
  The run of the specification's example: the user enters \<open>t1\<close> as name, picks
  \<open>flagstat\<close> (position 3 of the processors) and touches nothing else; the identifiers
  and the parser are left open.
\<close>

definition t1_world :: "(nat \<Rightarrow> 128 word) \<Rightarrow> (string \<Rightarrow> parse_result) \<Rightarrow> world" where
  "t1_world r p = \<lparr>typed = [''name'' \<mapsto> ''t1''], picked = [''processor_key'' \<mapsto> 3],
     uuid4 = r, ast_parse = p\<rparr>"

text \<open>
  Stand-ins for the outside: an identifier source that always returns 0, a parser that
  accepts every text and one that rejects every text; the two expressions of the
  specification; a run where the user has entered one space as \<open>stat\<close>, with the
  rejecting parser.
\<close>

definition zero_uuid :: "nat \<Rightarrow> 128 word" where
  "zero_uuid n = 0"

definition accept_all :: "string \<Rightarrow> parse_result" where
  "accept_all s = Parsed"

definition reject_all :: "string \<Rightarrow> parse_result" where
  "reject_all s = SyntaxError ''invalid syntax''"

definition pf_expression :: string where
  "pf_expression = ''data.rows.map('' @ [CHR 0x27] @ ''%PF'' @ [CHR 0x27] @ '').mean() > 0.9''"

definition unclosed_expression :: string where
  "unclosed_expression = ''data.rows.map((''"

definition blank_world :: world where
  "blank_world = \<lparr>typed = [''stat'' \<mapsto> '' ''], picked = Map.empty,
     uuid4 = zero_uuid, ast_parse = reject_all\<rparr>"

text \<open>
  Stand-ins for the parser: one that follows the model of the grammar and rejects what
  the model leaves open, and one that, like CPython, gives up with \<^verbatim>\<open>MemoryError\<close> on
  a text that begins with 6000 or more minus signs and follows the first one otherwise.
  A text of 10000 minus signs before a digit, and the run where the user has entered
  the text \<open>v\<close> as \<open>stat\<close> and the parser is \<open>p\<close>.
\<close>

definition grammar_parser :: "string \<Rightarrow> parse_result" where
  "grammar_parser s =
    (case py_expr s of Valid \<Rightarrow> Parsed | _ \<Rightarrow> SyntaxError ''invalid syntax'')"

definition exhausted_parser :: "string \<Rightarrow> parse_result" where
  "exhausted_parser s =
    (if 6000 \<le> length (takeWhile (\<lambda>c. c = CHR ''-'') s) then OtherError ''MemoryError''
     else grammar_parser s)"

definition deep_expression :: string where
  "deep_expression = replicate 10000 (CHR ''-'') @ ''1''"

definition stat_world :: "string \<Rightarrow> (string \<Rightarrow> parse_result) \<Rightarrow> world" where
  "stat_world v p = \<lparr>typed = [''stat'' \<mapsto> v], picked = Map.empty,
     uuid4 = zero_uuid, ast_parse = p\<rparr>"

text \<open>
  A type-specific dictionary that is not in the script: it redefines the core field
  \<open>failtype\<close> as a string field and adds an expression field.
\<close>

definition shadowing_fields :: "(string \<times> meta) list" where
  "shadowing_fields = [(''failtype'', field ''string''), (''stat'', field ''expression'')]"

text \<open>
  The run where the user picks \<open>tabular_mdo_eval\<close> (position 1 of the check types) and
  touches nothing else, and its final state.
\<close>

definition untouched_world :: world where
  "untouched_world = \<lparr>typed = Map.empty, picked = [''Select Assertion Type'' \<mapsto> 1],
     uuid4 = zero_uuid, ast_parse = accept_all\<rparr>"

definition untouched_state :: state where
  "untouched_state =
     \<lparr>output_doc = [(''id'', assertion_id (zero_uuid 0)), (''failtype'', ''fail''),
        (''check_type'', ''tabular_mdo_eval''), (''comment_character'', '''')],
      alerts = [], drawn = 1\<rparr>"

text \<open>
  A second identifier source, and the final states of the example run and of the run
  with one space as \<open>stat\<close>.
\<close>

definition other_uuid :: "nat \<Rightarrow> 128 word" where
  "other_uuid n = 0x9f3c2a7b5d6e4f01a2b3c4d5e6f70812"

definition t1_state :: "(nat \<Rightarrow> 128 word) \<Rightarrow> state" where
  "t1_state r =
     \<lparr>output_doc = [(''name'', ''t1''), (''id'', assertion_id (r 0)),
        (''failtype'', ''fail''), (''check_type'', ''postproc_results''),
        (''processor_key'', ''flagstat''), (''item_typ1e'', ''outputfile'')],
      alerts = [], drawn = 1\<rparr>"

definition blank_state :: state where
  "blank_state =
     \<lparr>output_doc = [(''id'', assertion_id (zero_uuid 0)), (''failtype'', ''fail''),
        (''check_type'', ''postproc_results''), (''processor_key'', ''fasta-summary''),
        (''stat'', '' ''), (''item_typ1e'', ''outputfile'')],
      alerts = [], drawn = 1\<rparr>"

subsection \<open>Notions used in the statements\<close>

text \<open>
  The resolved value of a field when \<open>n\<close> identifiers have been drawn: the value line 63
  assigns for a fixed field, the \<^verbatim>\<open>value\<close> tested in line 79 for any other field.
\<close>

definition resolved :: "string \<Rightarrow> world \<Rightarrow> string \<Rightarrow> meta \<Rightarrow> nat \<Rightarrow> py_error + string option" where
  "resolved check_type w key meta n =
    (if ftype meta = ''fixed'' then map_sum id Some (fixed_value check_type meta)
     else map_sum id fst (widget w key meta (fst (call_default w meta n))))"

text \<open>
  A descriptor has the keys its kind subscripts: \<^verbatim>\<open>meta["value"]\<close> for a fixed field
  that is not flagged \<^verbatim>\<open>value_from_parent\<close>, \<^verbatim>\<open>meta["options"]\<close> for a select field.
\<close>

definition well_formed :: "meta \<Rightarrow> bool" where
  "well_formed meta =
    ((ftype meta = ''fixed'' \<longrightarrow> value_from_parent meta \<or> val meta \<noteq> None)
     \<and> (ftype meta = ''select'' \<longrightarrow> options meta \<noteq> None))"

section \<open>Properties\<close>

subsection \<open>The merge, the loop and the identifier\<close>

lemma map_of_dict_merge:
  "distinct (map fst b) \<Longrightarrow> map_of (dict_merge a b) = map_of a ++ map_of b"
proof (induction b arbitrary: a)
  case Nil
  then show ?case by (simp add: dict_merge_def)
next
  case (Cons p b)
  obtain k v where p: "p = (k, v)" by (cases p)
  from Cons.prems p have notin: "map_of b k = None" and d: "distinct (map fst b)"
    by (auto simp: map_of_eq_None_iff)
  have "map_of (dict_merge a (p # b)) = map_of (dict_merge (AList.update k v a) b)"
    by (simp add: dict_merge_def p)
  also have "\<dots> = map_of (AList.update k v a) ++ map_of b"
    using Cons.IH [OF d] .
  also have "\<dots> = map_of a ++ map_of (p # b)"
    using notin by (auto simp: p update_conv' map_add_def fun_eq_iff split: option.splits)
  finally show ?case .
qed

lemma keys_dict_merge:
  "distinct (map fst b) \<Longrightarrow>
   map fst (dict_merge a b) = map fst a @ filter (\<lambda>k. k \<notin> set (map fst a)) (map fst b)"
proof (induction b arbitrary: a)
  case Nil
  then show ?case by (simp add: dict_merge_def)
next
  case (Cons p b)
  obtain k v where p: "p = (k, v)" by (cases p)
  from Cons.prems p have notin: "k \<notin> set (map fst b)" and d: "distinct (map fst b)"
    by auto
  have step: "dict_merge a (p # b) = dict_merge (AList.update k v a) b"
    by (simp add: dict_merge_def p)
  have ih: "map fst (dict_merge a (p # b)) =
      map fst (AList.update k v a) @
      filter (\<lambda>x. x \<notin> set (map fst (AList.update k v a))) (map fst b)"
    unfolding step by (rule Cons.IH [OF d])
  show ?case
  proof (cases "k \<in> set (map fst a)")
    case True
    then have "map fst (AList.update k v a) = map fst a"
      by (simp add: update_keys)
    with True show ?thesis
      unfolding ih by (simp add: p)
  next
    case False
    then have keys: "map fst (AList.update k v a) = map fst a @ [k]"
      by (simp add: update_keys)
    have "filter (\<lambda>x. x \<notin> set (map fst a @ [k])) (map fst b)
          = filter (\<lambda>x. x \<notin> set (map fst a)) (map fst b)"
      using notin by (intro filter_cong) auto
    with False show ?thesis
      unfolding ih keys by (simp add: p)
  qed
qed

lemma render_append:
  "render ct w (xs @ ys) s =
   (case render ct w xs s of Inl e \<Rightarrow> Inl e | Inr s1 \<Rightarrow> render ct w ys s1)"
  by (induction xs arbitrary: s) (auto split: sum.splits)

lemma store_other: "k \<noteq> key \<Longrightarrow> map_of (store meta key v out) k = map_of out k"
  by (simp add: store_def update_conv' split: option.splits)

lemma render_field_other:
  "render_field ct w f s = Inr s' \<Longrightarrow> k \<noteq> fst f \<Longrightarrow>
   map_of (output_doc s') k = map_of (output_doc s) k"
  by (auto simp: render_field_def Let_def store_other update_conv'
           split: if_splits sum.splits prod.splits)

lemma render_other:
  "render ct w fs s = Inr s' \<Longrightarrow> k \<notin> fst ` set fs \<Longrightarrow>
   map_of (output_doc s') k = map_of (output_doc s) k"
proof (induction fs arbitrary: s)
  case Nil
  then show ?case by simp
next
  case (Cons f fs)
  from Cons.prems(1) obtain s1 where f: "render_field ct w f s = Inr s1"
    and rest: "render ct w fs s1 = Inr s'"
    by (auto split: sum.splits)
  from Cons.prems(2) have "k \<noteq> fst f" "k \<notin> fst ` set fs" by auto
  with Cons.IH [OF rest] render_field_other [OF f] show ?case by simp
qed

lemma list_index_None: "list_index xs x = None \<longleftrightarrow> x \<notin> set xs"
  by (induction xs) auto

lemma list_index_Some: "list_index xs x = Some i \<Longrightarrow> i < length xs \<and> xs ! i = x"
  by (induction xs arbitrary: i) (auto split: if_splits)

lemma hex_digit_hexadecimal: "d < 16 \<Longrightarrow> hexadecimal (hex_digit d)"
proof -
  assume "d < 16"
  then have "d < length ''0123456789abcdef''" by simp
  then have "''0123456789abcdef'' ! d \<in> set ''0123456789abcdef''"
    by (rule nth_mem)
  moreover have "set ''0123456789abcdef'' \<subseteq> set ''0123456789abcdefABCDEF''"
    by simp
  ultimately show ?thesis
    unfolding hexadecimal_def hex_digit_def by (rule subsetD [rotated])
qed

lemma length_hex: "length (hex u) = 32"
  by (simp add: hex_def)

lemma hex_hexadecimal: "c \<in> set (hex u) \<Longrightarrow> hexadecimal c"
  by (auto simp: hex_def intro!: hex_digit_hexadecimal)

lemma id_pattern_assertion_id: "id_pattern (assertion_id u)"
  by (auto simp: id_pattern_def assertion_id_def length_hex list_all_iff
        dest!: in_set_takeD hex_hexadecimal)

subsection \<open>The schema dictionaries\<close>

lemma schemas_cases:
  "map_of schemas T = Some specific \<Longrightarrow>
   (T = ''postproc_results'' \<or> T = ''tabular_mdo_eval'') \<and> distinct (map fst specific)"
  by (auto simp: schemas_def split: if_splits)

lemma core_fields_keys: "map fst core_fields = [''name'', ''id'', ''failtype'', ''check_type'']"
  by (simp add: core_fields_def)

lemma fields_postproc:
  "fields_for ''postproc_results'' = Inr (core_fields @ snd (schemas ! 0))"
  by (simp add: fields_for_def schemas_def dict_merge_def core_fields_def)

lemma fields_tabular:
  "fields_for ''tabular_mdo_eval'' = Inr (core_fields @ snd (schemas ! 1))"
  by (simp add: fields_for_def schemas_def dict_merge_def core_fields_def)

lemmas run_defs = render_field_def call_default_def widget_def fixed_value_def store_def
  included_def truthy_def text_input_def text_area_def selectbox_def get_placeholder_def
  field_def strip_def space_len_def ascii_space_def wide_spaces_def init_def Let_def

subsection \<open>The fields of a check type\<close>

text \<open>
  C2. The merge of line 47, for the core fields and any type-specific dictionary: the
  merged dictionary has distinct keys, which are the core keys in their order followed
  by the type-specific keys that are not core keys, so every core name and every
  type-specific name is a key; at a key of the type-specific dictionary the entry is the
  type-specific one, also when a core field has the same name, and at every other key
  it is the core entry. For every check type \<open>T\<close> of \<^verbatim>\<open>schemas\<close>, the fields of \<open>T\<close> are
  this merge of the core fields with the type-specific dictionary of \<open>T\<close>.
\<close>

theorem fields_merge:
  assumes "distinct (map fst specific)"
  shows "distinct (map fst (dict_merge core_fields specific))
    \<and> map fst (dict_merge core_fields specific) = map fst core_fields
        @ filter (\<lambda>k. k \<notin> set (map fst core_fields)) (map fst specific)
    \<and> set (map fst (dict_merge core_fields specific))
        = set (map fst core_fields) \<union> set (map fst specific)
    \<and> (\<forall>k m. map_of specific k = Some m \<longrightarrow>
          map_of (dict_merge core_fields specific) k = Some m)
    \<and> (\<forall>k. map_of specific k = None \<longrightarrow>
          map_of (dict_merge core_fields specific) k = map_of core_fields k)
    \<and> (\<forall>T sp. map_of schemas T = Some sp \<longrightarrow>
          distinct (map fst sp) \<and> fields_for T = Inr (dict_merge core_fields sp))"
proof -
  let ?fs = "dict_merge core_fields specific"
  have keys: "map fst ?fs = map fst core_fields
        @ filter (\<lambda>k. k \<notin> set (map fst core_fields)) (map fst specific)"
    by (rule keys_dict_merge [OF assms])
  have "distinct (map fst core_fields)"
    by (simp add: core_fields_keys)
  with assms have d: "distinct (map fst ?fs)"
    unfolding keys by auto
  have u: "set (map fst ?fs) = set (map fst core_fields) \<union> set (map fst specific)"
    unfolding keys by auto
  have o: "\<forall>k m. map_of specific k = Some m \<longrightarrow> map_of ?fs k = Some m"
    by (simp add: map_of_dict_merge [OF assms] map_add_def)
  have c: "\<forall>k. map_of specific k = None \<longrightarrow> map_of ?fs k = map_of core_fields k"
    by (simp add: map_of_dict_merge [OF assms] map_add_def)
  have r: "\<forall>T sp. map_of schemas T = Some sp \<longrightarrow>
          distinct (map fst sp) \<and> fields_for T = Inr (dict_merge core_fields sp)"
    by (simp add: schemas_cases fields_for_def)
  from d keys u o c r show ?thesis
    by (intro conjI)
qed

text \<open>
  The theorem at a dictionary that redefines \<open>failtype\<close>: the key keeps its place among
  the core keys and its entry is the type-specific one; and at \<open>tabular_mdo_eval\<close>, the
  second entry of \<^verbatim>\<open>schemas\<close>.
\<close>

theorem fields_merge_witness:
  "distinct (map fst shadowing_fields)
   \<and> map fst (dict_merge core_fields shadowing_fields)
       = [''name'', ''id'', ''failtype'', ''check_type'', ''stat'']
   \<and> map_of shadowing_fields ''failtype'' = Some (field ''string'')
   \<and> map_of core_fields ''failtype'' \<noteq> Some (field ''string'')
   \<and> map_of (dict_merge core_fields shadowing_fields) ''failtype'' = Some (field ''string'')
   \<and> map_of shadowing_fields ''name'' = None
   \<and> map_of (dict_merge core_fields shadowing_fields) ''name'' = map_of core_fields ''name''
   \<and> map_of schemas ''tabular_mdo_eval'' = Some (snd (schemas ! 1))
   \<and> fields_for ''tabular_mdo_eval'' = Inr (dict_merge core_fields (snd (schemas ! 1)))"
proof -
  have d: "distinct (map fst shadowing_fields)"
    by (simp add: shadowing_fields_def)
  have k: "map fst shadowing_fields = [''failtype'', ''stat'']"
    by (simp add: shadowing_fields_def)
  have f: "map_of shadowing_fields ''failtype'' = Some (field ''string'')"
    by (simp add: shadowing_fields_def)
  have g: "map_of core_fields ''failtype'' \<noteq> Some (field ''string'')"
    by (simp add: core_fields_def field_def)
  have n: "map_of shadowing_fields ''name'' = None"
    by (simp add: shadowing_fields_def)
  have h: "map_of schemas ''tabular_mdo_eval'' = Some (snd (schemas ! 1))"
    by (simp add: schemas_def)
  note th = fields_merge [OF d]
  from th have a: "map fst (dict_merge core_fields shadowing_fields)
       = [''name'', ''id'', ''failtype'', ''check_type'', ''stat'']"
    unfolding k core_fields_keys by simp
  from th f have b: "map_of (dict_merge core_fields shadowing_fields) ''failtype''
      = Some (field ''string'')"
    by blast
  from th n have c: "map_of (dict_merge core_fields shadowing_fields) ''name''
      = map_of core_fields ''name''"
    by blast
  from th h have e: "fields_for ''tabular_mdo_eval''
      = Inr (dict_merge core_fields (snd (schemas ! 1)))"
    by blast
  from d a f g b n c h e show ?thesis
    by (intro conjI)
qed

subsection \<open>The example run\<close>

text \<open>
  C3. For \<open>postproc_results\<close> (the pre-selected check type) with the name \<open>t1\<close>, the
  processor \<open>flagstat\<close> and everything else untouched, the script ends without an
  exception and the dictionary holds exactly \<open>name\<close>, \<open>id\<close>, \<open>failtype\<close>, \<open>check_type\<close>,
  \<open>processor_key\<close> and \<open>item_typ1e\<close>, in this order, with the values \<open>t1\<close>, the generated
  identifier, \<open>fail\<close>, \<open>postproc_results\<close>, \<open>flagstat\<close> and \<open>outputfile\<close>; there is no key
  \<open>stat\<close> and no key \<open>postprocessed_file_pattern\<close>, and nothing is shown on the page.
\<close>

theorem postproc_example:
  "app (t1_world r p) =
     Inr \<lparr>output_doc = [(''name'', ''t1''), (''id'', assertion_id (r 0)),
            (''failtype'', ''fail''), (''check_type'', ''postproc_results''),
            (''processor_key'', ''flagstat''), (''item_typ1e'', ''outputfile'')],
          alerts = [], drawn = 1\<rparr>"
  by (simp add: app_def t1_world_def fields_postproc schemas_def core_fields_def
        known_processors_def run_defs)

subsection \<open>Expression fields\<close>

lemma strip_samples: "strip pf_expression \<noteq> []" "strip unclosed_expression \<noteq> []"
  by (simp_all add: pf_expression_def unclosed_expression_def strip_def space_len_def
        ascii_space_def wide_spaces_def)

lemmas lex_defs = py_expr_def step_def start_def emit_def finish_def letter_def digit_def
  py_keywords_def

lemma py_expr_pf: "py_expr pf_expression = Valid"
  by (simp add: pf_expression_def lex_defs)

lemma py_expr_unclosed: "py_expr unclosed_expression = Invalid"
  by (simp add: unclosed_expression_def lex_defs)

lemma python_parser_grammar: "python_parser grammar_parser"
  by (simp add: python_parser_def grammar_parser_def)

lemma py_expr_short: "py_expr s \<noteq> Unknown \<Longrightarrow> length s \<le> 64"
  by (cases s) (auto simp: py_expr_def split: if_splits)

lemma python_parser_exhausted: "python_parser exhausted_parser"
proof -
  have "\<not> 6000 \<le> length (takeWhile (\<lambda>c. c = CHR ''-'') s)" if "py_expr s \<noteq> Unknown" for s
    using py_expr_short [OF that] length_takeWhile_le [of "\<lambda>c. c = CHR ''-''" s] by simp
  then show ?thesis
    by (simp add: python_parser_def exhausted_parser_def grammar_parser_def)
qed

lemma strip_deep: "strip deep_expression \<noteq> []"
proof -
  have n: "(10000::nat) = Suc 9999" by simp
  show ?thesis
    unfolding deep_expression_def n replicate_Suc
    by (simp add: strip_def space_len_def ascii_space_def wide_spaces_def)
qed

lemma exhausted_deep: "exhausted_parser deep_expression = OtherError ''MemoryError''"
proof -
  have "takeWhile (\<lambda>c. c = CHR ''-'') (replicate 10000 (CHR ''-'') @ ''1'')
      = replicate 10000 (CHR ''-'') @ takeWhile (\<lambda>c. c = CHR ''-'') ''1''"
    by (rule takeWhile_append2) simp
  then show ?thesis
    by (simp add: exhausted_parser_def deep_expression_def)
qed

lemma stat_world_sel:
  "text_area (stat_world v p) ''stat'' d ph = v" "ast_parse (stat_world v p) = p"
  by (simp_all add: text_area_def stat_world_def)

text \<open>
  C4, as the code has it. For every expression field, with \<open>v\<close> the text of the text
  area: when \<open>v\<close> has a character that is not whitespace (\<^verbatim>\<open>value.strip()\<close> is not empty),
  \<open>v\<close> is handed to the parser and nothing else is done with it; when the parser accepts,
  only the note is shown; when it raises \<^verbatim>\<open>SyntaxError\<close>, one error is shown, whose text is
  the prefix followed by the parser's message and so is not empty; any other exception
  of the parser is not caught and ends the run. When \<open>v\<close> is empty or all whitespace the
  parser is not called and nothing is shown. With a parser that agrees with the model of
  the grammar, the first expression of the specification shows the note and no error,
  and the second one shows an error whose text is not empty.
\<close>

theorem expression_validation:
  assumes "ftype meta = ''expression''"
  shows "let v = text_area w key d (get_placeholder meta) in
      (strip v \<noteq> [] \<and> ast_parse w v = Parsed \<longrightarrow>
         widget w key meta d = Inr (Some v, [st_success valid_note]))
    \<and> (\<forall>msg. strip v \<noteq> [] \<and> ast_parse w v = SyntaxError msg \<longrightarrow>
         widget w key meta d = Inr (Some v, [st_error (invalid_prefix @ msg)])
         \<and> invalid_prefix @ msg \<noteq> [])
    \<and> (\<forall>e. strip v \<noteq> [] \<and> ast_parse w v = OtherError e \<longrightarrow>
         widget w key meta d = Inl (Uncaught e))
    \<and> (strip v = [] \<longrightarrow> widget w key meta d = Inr (Some v, []))
    \<and> (python_parser (ast_parse w) \<and> v = pf_expression \<longrightarrow>
         widget w key meta d = Inr (Some v, [st_success valid_note]))
    \<and> (python_parser (ast_parse w) \<and> v = unclosed_expression \<longrightarrow>
         (\<exists>msg. ast_parse w v = SyntaxError msg
            \<and> widget w key meta d = Inr (Some v, [st_error (invalid_prefix @ msg)])
            \<and> invalid_prefix @ msg \<noteq> []))"
proof -
  define v where "v = text_area w key d (get_placeholder meta)"
  have wd: "widget w key meta d =
      (if strip v \<noteq> [] then
         (case ast_parse w v of
            Parsed \<Rightarrow> Inr (Some v, [st_success valid_note])
          | SyntaxError msg \<Rightarrow> Inr (Some v, [st_error (invalid_prefix @ msg)])
          | OtherError e \<Rightarrow> Inl (Uncaught e))
       else Inr (Some v, []))"
    unfolding v_def using assms by (simp add: widget_def Let_def)
  have pre: "invalid_prefix @ msg \<noteq> []" for msg
    by (simp add: invalid_prefix_def)
  have one: "strip v \<noteq> [] \<and> ast_parse w v = Parsed \<longrightarrow>
         widget w key meta d = Inr (Some v, [st_success valid_note])"
    by (simp add: wd)
  have two: "\<forall>msg. strip v \<noteq> [] \<and> ast_parse w v = SyntaxError msg \<longrightarrow>
         widget w key meta d = Inr (Some v, [st_error (invalid_prefix @ msg)])
         \<and> invalid_prefix @ msg \<noteq> []"
    using pre by (simp add: wd)
  have three: "\<forall>e. strip v \<noteq> [] \<and> ast_parse w v = OtherError e \<longrightarrow>
         widget w key meta d = Inl (Uncaught e)"
    by (simp add: wd)
  have four: "strip v = [] \<longrightarrow> widget w key meta d = Inr (Some v, [])"
    by (simp add: wd)
  have five: "python_parser (ast_parse w) \<and> v = pf_expression \<longrightarrow>
         widget w key meta d = Inr (Some v, [st_success valid_note])"
  proof
    assume h: "python_parser (ast_parse w) \<and> v = pf_expression"
    then have "ast_parse w v = Parsed"
      using py_expr_pf by (simp add: python_parser_def)
    moreover from h have "strip v \<noteq> []"
      using strip_samples(1) by simp
    ultimately show "widget w key meta d = Inr (Some v, [st_success valid_note])"
      using one by simp
  qed
  have six: "python_parser (ast_parse w) \<and> v = unclosed_expression \<longrightarrow>
         (\<exists>msg. ast_parse w v = SyntaxError msg
            \<and> widget w key meta d = Inr (Some v, [st_error (invalid_prefix @ msg)])
            \<and> invalid_prefix @ msg \<noteq> [])"
  proof
    assume h: "python_parser (ast_parse w) \<and> v = unclosed_expression"
    then obtain msg where m: "ast_parse w v = SyntaxError msg"
      using py_expr_unclosed unfolding python_parser_def by blast
    from h have "strip v \<noteq> []"
      using strip_samples(2) by simp
    with m two show "\<exists>msg. ast_parse w v = SyntaxError msg
            \<and> widget w key meta d = Inr (Some v, [st_error (invalid_prefix @ msg)])
            \<and> invalid_prefix @ msg \<noteq> []"
      by blast
  qed
  from one two three four five six show ?thesis
    unfolding Let_def v_def [symmetric] by (intro conjI)
qed

text \<open>
  The theorem on four runs: the two expressions of the specification with the parser
  that follows the model, a value of one space, and the text that exhausts the parser.
\<close>

theorem expression_validation_witness:
  "ftype (field ''expression'') = ''expression''
   \<and> python_parser grammar_parser
   \<and> widget (stat_world pf_expression grammar_parser) ''stat'' (field ''expression'') ''''
       = Inr (Some pf_expression, [st_success valid_note])
   \<and> widget (stat_world unclosed_expression grammar_parser) ''stat'' (field ''expression'') ''''
       = Inr (Some unclosed_expression, [st_error (invalid_prefix @ ''invalid syntax'')])
   \<and> strip '' '' = []
   \<and> widget (stat_world '' '' grammar_parser) ''stat'' (field ''expression'') ''''
       = Inr (Some '' '', [])
   \<and> strip deep_expression \<noteq> []
   \<and> exhausted_parser deep_expression = OtherError ''MemoryError''
   \<and> widget (stat_world deep_expression exhausted_parser) ''stat'' (field ''expression'') ''''
       = Inl (Uncaught ''MemoryError'')"
proof -
  have k: "ftype (field ''expression'') = ''expression''"
    by (simp add: field_def)
  have b: "strip '' '' = []"
    by (simp add: strip_def space_len_def ascii_space_def wide_spaces_def)
  have u: "grammar_parser unclosed_expression = SyntaxError ''invalid syntax''"
    by (simp add: grammar_parser_def py_expr_unclosed)
  note th = expression_validation [OF k, where key = "''stat''" and d = "''''"]
  from th [where w = "stat_world pf_expression grammar_parser", unfolded Let_def stat_world_sel] python_parser_grammar
  have one: "widget (stat_world pf_expression grammar_parser) ''stat'' (field ''expression'') ''''
       = Inr (Some pf_expression, [st_success valid_note])"
    by blast
  from th [where w = "stat_world unclosed_expression grammar_parser", unfolded Let_def stat_world_sel] python_parser_grammar
  obtain msg where "grammar_parser unclosed_expression = SyntaxError msg"
    and "widget (stat_world unclosed_expression grammar_parser) ''stat''
        (field ''expression'') ''''
       = Inr (Some unclosed_expression, [st_error (invalid_prefix @ msg)])"
    by blast
  with u have two: "widget (stat_world unclosed_expression grammar_parser) ''stat''
        (field ''expression'') ''''
       = Inr (Some unclosed_expression, [st_error (invalid_prefix @ ''invalid syntax'')])"
    by simp
  from th [where w = "stat_world '' '' grammar_parser", unfolded Let_def stat_world_sel] b
  have three: "widget (stat_world '' '' grammar_parser) ''stat'' (field ''expression'') ''''
       = Inr (Some '' '', [])"
    by blast
  from th [where w = "stat_world deep_expression exhausted_parser", unfolded Let_def stat_world_sel] strip_deep exhausted_deep
  have four: "widget (stat_world deep_expression exhausted_parser) ''stat''
        (field ''expression'') '''' = Inl (Uncaught ''MemoryError'')"
    by blast
  from k python_parser_grammar one two b three strip_deep exhausted_deep four
  show ?thesis
    by (intro conjI)
qed

text \<open>
  A value of one space is not empty and the parser rejects it, yet the script shows no
  error: the guard of line 70 tests \<^verbatim>\<open>value.strip()\<close>, not \<^verbatim>\<open>value\<close>. And a text that the
  parser fails on with an exception other than \<^verbatim>\<open>SyntaxError\<close> (10000 minus signs before
  a digit exhaust it) shows no error either: the exception leaves the loop, and the
  script ends without a dictionary.
\<close>

theorem expression_validation_counterexample:
  "typed blank_world ''stat'' = Some '' '' \<and> '' '' \<noteq> ''''
   \<and> ast_parse blank_world '' '' = SyntaxError ''invalid syntax''
   \<and> app blank_world =
       Inr \<lparr>output_doc = [(''id'', assertion_id (zero_uuid 0)), (''failtype'', ''fail''),
              (''check_type'', ''postproc_results''), (''processor_key'', ''fasta-summary''),
              (''stat'', '' ''), (''item_typ1e'', ''outputfile'')],
            alerts = [], drawn = 1\<rparr>
   \<and> typed (stat_world deep_expression exhausted_parser) ''stat'' = Some deep_expression
   \<and> strip deep_expression \<noteq> ''''
   \<and> ast_parse (stat_world deep_expression exhausted_parser) deep_expression
       = OtherError ''MemoryError''
   \<and> app (stat_world deep_expression exhausted_parser) = Inl (Uncaught ''MemoryError'')"
proof -
  have blank: "typed blank_world ''stat'' = Some '' '' \<and> '' '' \<noteq> ''''
   \<and> ast_parse blank_world '' '' = SyntaxError ''invalid syntax''
   \<and> app blank_world =
       Inr \<lparr>output_doc = [(''id'', assertion_id (zero_uuid 0)), (''failtype'', ''fail''),
              (''check_type'', ''postproc_results''), (''processor_key'', ''fasta-summary''),
              (''stat'', '' ''), (''item_typ1e'', ''outputfile'')],
            alerts = [], drawn = 1\<rparr>"
    by (simp add: app_def blank_world_def reject_all_def fields_postproc schemas_def
        core_fields_def known_processors_def run_defs)
  have t: "typed (stat_world deep_expression exhausted_parser) ''stat'' = Some deep_expression"
    by (simp add: stat_world_def)
  have p: "ast_parse (stat_world deep_expression exhausted_parser) deep_expression
       = OtherError ''MemoryError''"
    by (simp add: stat_world_def exhausted_deep)
  have a: "app (stat_world deep_expression exhausted_parser) = Inl (Uncaught ''MemoryError'')"
    by (simp add: app_def stat_world_def fields_postproc schemas_def core_fields_def
        known_processors_def render_field_def call_default_def widget_def fixed_value_def
        store_def included_def truthy_def text_input_def text_area_def selectbox_def
        get_placeholder_def field_def init_def Let_def strip_deep exhausted_deep)
  from blank t strip_deep p a show ?thesis
    by (intro conjI) simp_all
qed

subsection \<open>Descriptors of an unknown kind\<close>

text \<open>
  C5, as the code has it. A descriptor whose kind is none of \<open>fixed\<close>, \<open>string\<close>,
  \<open>expression\<close>, \<open>select\<close> raises nothing: its pass through the loop takes no branch,
  shows nothing and leaves the dictionary as it was (only a callable default is still
  called), and the loop goes on with the next field.
\<close>

theorem unknown_kind_skipped:
  assumes "ftype meta \<notin> {''fixed'', ''string'', ''expression'', ''select''}"
  shows "render_field ct w (key, meta) s = Inr (s\<lparr>drawn := snd (call_default w meta (drawn s))\<rparr>)
    \<and> render ct w ((key, meta) # rest) s =
        render ct w rest (s\<lparr>drawn := snd (call_default w meta (drawn s))\<rparr>)"
proof -
  have "render_field ct w (key, meta) s =
      Inr (s\<lparr>drawn := snd (call_default w meta (drawn s))\<rparr>)"
    using assms
    by (simp add: render_field_def widget_def store_def included_def truthy_def Let_def)
  then show ?thesis by simp
qed

theorem unknown_kind_skipped_witness:
  "ftype (field ''number'') \<notin> {''fixed'', ''string'', ''expression'', ''select''}
   \<and> render_field ''postproc_results'' (t1_world zero_uuid accept_all)
        (''count'', field ''number'') init = Inr init"
  using unknown_kind_skipped [of "field ''number''" "''postproc_results''"
      "t1_world zero_uuid accept_all" "''count''" init "[]"]
  by (simp add: field_def call_default_def init_def)

text \<open>
  The core fields followed by a descriptor of the kind \<open>number\<close>: the loop ends with a
  dictionary, not with an exception.
\<close>

theorem unknown_kind_counterexample:
  "ftype (field ''number'') \<notin> {''fixed'', ''string'', ''expression'', ''select''}
   \<and> render ''postproc_results'' (t1_world zero_uuid accept_all)
        (core_fields @ [(''count'', field ''number'')]) init =
       Inr \<lparr>output_doc = [(''name'', ''t1''), (''id'', assertion_id (zero_uuid 0)),
              (''failtype'', ''fail''), (''check_type'', ''postproc_results'')],
            alerts = [], drawn = 1\<rparr>"
  by (simp add: t1_world_def core_fields_def run_defs)

subsection \<open>Select fields\<close>

text \<open>
  C6. For every select field with a non-empty option list the value is one of the
  options: the option the user picked, or, when the user picked nothing, the default if
  it is an option and the first option otherwise. A descriptor without a default has the
  default \<^verbatim>\<open>""\<close>, which is not an option unless the list holds the empty string.
\<close>

theorem select_value:
  assumes "ftype meta = ''select''" and "options meta = Some opts" and "opts \<noteq> []"
  shows "let d = fst (call_default w meta n) in
    \<exists>v. widget w key meta d = Inr (Some v, []) \<and> v \<in> set opts
      \<and> (\<forall>i. picked w key = Some i \<and> i < length opts \<longrightarrow> v = opts ! i)
      \<and> (picked w key = None \<and> d \<in> set opts \<longrightarrow> v = d)
      \<and> (picked w key = None \<and> d \<notin> set opts \<longrightarrow> v = hd opts)
      \<and> (picked w key = None \<and> default meta = None \<and> '''' \<notin> set opts \<longrightarrow> v = hd opts)"
proof -
  define d where "d = fst (call_default w meta n)"
  have nodef: "default meta = None \<longrightarrow> d = ''''"
    by (simp add: d_def call_default_def)
  define j where "j = (case list_index opts d of Some i \<Rightarrow> i | None \<Rightarrow> 0)"
  have j: "j < length opts" "d \<in> set opts \<longrightarrow> opts ! j = d" "d \<notin> set opts \<longrightarrow> j = 0"
    using assms(3) list_index_Some [of opts d] list_index_None [of opts d]
    by (auto simp: j_def split: option.splits)
  define v where "v = opts ! (case picked w key of None \<Rightarrow> j
                               | Some i \<Rightarrow> if i < length opts then i else j)"
  have w: "widget w key meta d = Inr (Some v, [])"
    using assms by (simp add: widget_def selectbox_def v_def j_def split: option.splits)
  have "v \<in> set opts"
    using j(1) by (auto simp: v_def split: option.splits)
  moreover have "\<forall>i. picked w key = Some i \<and> i < length opts \<longrightarrow> v = opts ! i"
    by (simp add: v_def)
  moreover have "picked w key = None \<and> d \<in> set opts \<longrightarrow> v = d"
    using j(2) by (simp add: v_def)
  moreover have h: "picked w key = None \<and> d \<notin> set opts \<longrightarrow> v = hd opts"
    using j(3) assms(3) by (simp add: v_def hd_conv_nth)
  moreover have "picked w key = None \<and> default meta = None \<and> '''' \<notin> set opts \<longrightarrow> v = hd opts"
    using h nodef by simp
  ultimately show ?thesis
    unfolding Let_def d_def [symmetric] using w by blast
qed

text \<open>The theorem at \<open>processor_key\<close> in the example run, where position 3 is picked.\<close>

theorem select_value_witness:
  "ftype ((field ''select'')\<lparr>options := Some known_processors, required := True\<rparr>) = ''select''
   \<and> options ((field ''select'')\<lparr>options := Some known_processors, required := True\<rparr>)
       = Some known_processors
   \<and> known_processors \<noteq> []
   \<and> widget (t1_world zero_uuid accept_all) ''processor_key''
        ((field ''select'')\<lparr>options := Some known_processors, required := True\<rparr>)
        '''' = Inr (Some ''flagstat'', [])"
proof -
  let ?pk = "(field ''select'')\<lparr>options := Some known_processors, required := True\<rparr>"
  let ?w = "t1_world zero_uuid accept_all"
  have a: "ftype ?pk = ''select''" by (simp add: field_def)
  have b: "options ?pk = Some known_processors" by (simp add: field_def)
  have c: "known_processors \<noteq> []" by (simp add: known_processors_def)
  have d: "fst (call_default ?w ?pk 0) = ''''" by (simp add: call_default_def field_def)
  have p: "picked ?w ''processor_key'' = Some 3" by (simp add: t1_world_def)
  have l: "3 < length known_processors" "known_processors ! 3 = ''flagstat''"
    by (simp_all add: known_processors_def)
  from select_value [OF a b c, where w = ?w and n = 0 and key = "''processor_key''"]
  obtain v where w: "widget ?w ''processor_key'' ?pk '''' = Inr (Some v, [])"
    and i: "\<forall>i. picked ?w ''processor_key'' = Some i \<and> i < length known_processors
              \<longrightarrow> v = known_processors ! i"
    unfolding Let_def d by (elim exE conjE)
  from i p l have "v = ''flagstat''" by simp
  with w a b c show ?thesis by simp
qed

subsection \<open>One pass and the whole loop\<close>

lemma render_split:
  assumes "render ct w (pre @ f # post) s0 = Inr s'"
  shows "\<exists>s1 t. render ct w pre s0 = Inr s1 \<and> render_field ct w f s1 = Inr t
           \<and> render ct w post t = Inr s'"
  using assms unfolding render_append by (auto split: sum.splits)

lemma render_field_fixed:
  assumes "ftype (snd f) = ''fixed''" and "render_field ct w f s = Inr t"
  shows "\<exists>v. fixed_value ct (snd f) = Inr v
    \<and> t = \<lparr>output_doc = AList.update (fst f) v (output_doc s), alerts = alerts s,
            drawn = snd (call_default w (snd f) (drawn s))\<rparr>"
  using assms by (auto simp: render_field_def Let_def split: sum.splits)

lemma render_field_widget:
  assumes "ftype (snd f) \<noteq> ''fixed''" and "render_field ct w f s = Inr t"
  shows "\<exists>v shown. widget w (fst f) (snd f) (fst (call_default w (snd f) (drawn s)))
        = Inr (v, shown)
    \<and> t = \<lparr>output_doc = store (snd f) (fst f) v (output_doc s),
            alerts = alerts s @ shown, drawn = snd (call_default w (snd f) (drawn s))\<rparr>"
  using assms by (auto simp: render_field_def Let_def split: sum.splits)

lemma store_same:
  "map_of (store meta key v out) key = (if included meta v then v else map_of out key)"
  by (cases v) (simp_all add: store_def included_def truthy_def update_conv')

lemma strip_Nil: "strip [] = []"
  by (simp add: strip_def)

lemma widget_same:
  "typed w2 = typed w1 \<Longrightarrow> picked w2 = picked w1 \<Longrightarrow> ast_parse w2 = ast_parse w1 \<Longrightarrow>
   widget w2 key meta d = widget w1 key meta d"
  by (simp add: widget_def text_input_def text_area_def selectbox_def Let_def
        split: option.splits)

lemma store_agree:
  "map_of out1 k = map_of out2 k \<Longrightarrow>
   map_of (store meta key v out1) k = map_of (store meta key v out2) k"
  by (simp add: store_def update_conv' split: option.splits)

lemma call_default_same:
  "default meta \<noteq> Some Lambda \<Longrightarrow>
   fst (call_default w2 meta n2) = fst (call_default w1 meta n1)"
  by (simp add: call_default_def split: option.splits py_default.splits)

lemma render_field_agree:
  assumes r1: "render_field ct w1 f s1 = Inr t1" and r2: "render_field ct w2 f s2 = Inr t2"
    and same: "typed w2 = typed w1" "picked w2 = picked w1" "ast_parse w2 = ast_parse w1"
    and lam: "default (snd f) = Some Lambda \<longrightarrow> fst f \<in> L"
    and agree: "\<forall>k. k \<notin> L \<longrightarrow> map_of (output_doc s1) k = map_of (output_doc s2) k"
  shows "\<forall>k. k \<notin> L \<longrightarrow> map_of (output_doc t1) k = map_of (output_doc t2) k"
proof (intro allI impI)
  fix k assume k: "k \<notin> L"
  from agree k have out: "map_of (output_doc s1) k = map_of (output_doc s2) k"
    by simp
  show "map_of (output_doc t1) k = map_of (output_doc t2) k"
  proof (cases "default (snd f) = Some Lambda")
    case True
    with lam k have "k \<noteq> fst f" by auto
    with render_field_other [OF r1] render_field_other [OF r2] out
    show ?thesis by simp
  next
    case False
    have d: "fst (call_default w2 (snd f) (drawn s2)) = fst (call_default w1 (snd f) (drawn s1))"
      by (rule call_default_same [OF False])
    show ?thesis
    proof (cases "ftype (snd f) = ''fixed''")
      case True
      from render_field_fixed [OF True r1] obtain v1 where
        v1: "fixed_value ct (snd f) = Inr v1"
        and o1: "output_doc t1 = AList.update (fst f) v1 (output_doc s1)"
        by auto
      from render_field_fixed [OF True r2] obtain v2 where
        v2: "fixed_value ct (snd f) = Inr v2"
        and o2: "output_doc t2 = AList.update (fst f) v2 (output_doc s2)"
        by auto
      from v1 v2 have "v1 = v2" by simp
      with o1 o2 out show ?thesis by (simp add: update_conv')
    next
      case nf: False
      from render_field_widget [OF nf r1] obtain v1 sh1 where
        v1: "widget w1 (fst f) (snd f) (fst (call_default w1 (snd f) (drawn s1))) = Inr (v1, sh1)"
        and o1: "output_doc t1 = store (snd f) (fst f) v1 (output_doc s1)"
        by auto
      from render_field_widget [OF nf r2] obtain v2 sh2 where
        v2: "widget w2 (fst f) (snd f) (fst (call_default w2 (snd f) (drawn s2))) = Inr (v2, sh2)"
        and o2: "output_doc t2 = store (snd f) (fst f) v2 (output_doc s2)"
        by auto
      from v1 v2 have "v1 = v2"
        unfolding d widget_same [OF same] by simp
      with o1 o2 store_agree [OF out] show ?thesis by simp
    qed
  qed
qed

lemma render_agree:
  assumes same: "typed w2 = typed w1" "picked w2 = picked w1" "ast_parse w2 = ast_parse w1"
  shows "render ct w1 fs s1 = Inr t1 \<Longrightarrow> render ct w2 fs s2 = Inr t2 \<Longrightarrow>
    \<forall>f \<in> set fs. default (snd f) = Some Lambda \<longrightarrow> fst f \<in> L \<Longrightarrow>
    \<forall>k. k \<notin> L \<longrightarrow> map_of (output_doc s1) k = map_of (output_doc s2) k \<Longrightarrow>
    \<forall>k. k \<notin> L \<longrightarrow> map_of (output_doc t1) k = map_of (output_doc t2) k"
proof (induction fs arbitrary: s1 s2)
  case Nil
  then show ?case by simp
next
  case (Cons f fs)
  from Cons.prems(1) obtain u1 where f1: "render_field ct w1 f s1 = Inr u1"
    and rest1: "render ct w1 fs u1 = Inr t1"
    by (auto split: sum.splits)
  from Cons.prems(2) obtain u2 where f2: "render_field ct w2 f s2 = Inr u2"
    and rest2: "render ct w2 fs u2 = Inr t2"
    by (auto split: sum.splits)
  from Cons.prems(3) have lam: "default (snd f) = Some Lambda \<longrightarrow> fst f \<in> L"
    and lams: "\<forall>f \<in> set fs. default (snd f) = Some Lambda \<longrightarrow> fst f \<in> L"
    by simp_all
  have "\<forall>k. k \<notin> L \<longrightarrow> map_of (output_doc u1) k = map_of (output_doc u2) k"
    by (rule render_field_agree [OF f1 f2 same lam Cons.prems(4)])
  then show ?case
    by (rule Cons.IH [OF rest1 rest2 lams])
qed

lemma render_drawn:
  "render ct w fs s = Inr s' \<Longrightarrow>
   drawn s' = drawn s + length (filter (\<lambda>f. default (snd f) = Some Lambda) fs)"
proof (induction fs arbitrary: s)
  case Nil
  then show ?case by simp
next
  case (Cons f fs)
  from Cons.prems obtain t where f: "render_field ct w f s = Inr t"
    and rest: "render ct w fs t = Inr s'"
    by (auto split: sum.splits)
  have "drawn t = snd (call_default w (snd f) (drawn s))"
  proof (cases "ftype (snd f) = ''fixed''")
    case True
    from render_field_fixed [OF True f] show ?thesis by auto
  next
    case False
    from render_field_widget [OF False f] show ?thesis by auto
  qed
  then have "drawn t = drawn s + (if default (snd f) = Some Lambda then 1 else 0)"
    by (simp add: call_default_def split: option.splits py_default.splits)
  with Cons.IH [OF rest] show ?case by simp
qed

subsection \<open>The two check types\<close>

lemma fields_for_cases:
  "fields_for T = Inr fs \<Longrightarrow>
   (T = ''postproc_results'' \<and> fs = core_fields @ snd (schemas ! 0))
   \<or> (T = ''tabular_mdo_eval'' \<and> fs = core_fields @ snd (schemas ! 1))"
proof -
  assume a: "fields_for T = Inr fs"
  then obtain specific where "map_of schemas T = Some specific"
    by (auto simp: fields_for_def split: option.splits)
  then have "T = ''postproc_results'' \<or> T = ''tabular_mdo_eval''"
    by (simp add: schemas_cases)
  with a fields_postproc fields_tabular show ?thesis by auto
qed

lemma lambda_only_id:
  "fields_for T = Inr fs \<Longrightarrow> \<forall>f \<in> set fs. default (snd f) = Some Lambda \<longrightarrow> fst f \<in> {''id''}"
proof -
  assume "fields_for T = Inr fs"
  then have "fs = core_fields @ snd (schemas ! 0) \<or> fs = core_fields @ snd (schemas ! 1)"
    using fields_for_cases by blast
  then show ?thesis
    by (elim disjE) (simp_all add: core_fields_def schemas_def field_def)
qed

lemma specific_no_id:
  "''id'' \<notin> fst ` set (snd (schemas ! 0))" "''id'' \<notin> fst ` set (snd (schemas ! 1))"
  by (simp_all add: schemas_def)

lemma id_untouched:
  assumes t: "typed w ''id'' = None" and r: "render ct w core_fields init = Inr s"
  shows "map_of (output_doc s) ''id'' = Some (assertion_id (uuid4 w 0))"
proof -
  define f where "f = core_fields ! 1"
  have cf: "take 1 core_fields @ f # drop 2 core_fields = core_fields"
    by (simp add: f_def core_fields_def)
  have f: "fst f = ''id''" "ftype (snd f) = ''string''" "default (snd f) = Some Lambda"
    by (simp_all add: f_def core_fields_def field_def)
  have post: "''id'' \<notin> fst ` set (drop 2 core_fields)"
    by (simp add: core_fields_def)
  have pre: "filter (\<lambda>f. default (snd f) = Some Lambda) (take 1 core_fields) = []"
    by (simp add: core_fields_def field_def)
  have r': "render ct w (take 1 core_fields @ f # drop 2 core_fields) init = Inr s"
    unfolding cf by (rule r)
  from render_split [OF r'] obtain s1 t where a: "render ct w (take 1 core_fields) init = Inr s1"
    and b: "render_field ct w f s1 = Inr t"
    and c: "render ct w (drop 2 core_fields) t = Inr s"
    by blast
  from render_drawn [OF a] pre have d0: "drawn s1 = 0"
    by (simp add: init_def)
  have nf: "ftype (snd f) \<noteq> ''fixed''"
    by (simp add: f(2))
  from render_field_widget [OF nf b] obtain v shown where
    wv: "widget w (fst f) (snd f) (fst (call_default w (snd f) (drawn s1))) = Inr (v, shown)"
    and ot: "output_doc t = store (snd f) (fst f) v (output_doc s1)"
    by auto
  have d: "fst (call_default w (snd f) (drawn s1)) = assertion_id (uuid4 w 0)"
    by (simp add: call_default_def f(3) d0)
  from wv have v: "v = Some (assertion_id (uuid4 w 0))"
    unfolding d by (simp add: widget_def f text_input_def t)
  have inc: "included (snd f) v"
    by (simp add: v included_def truthy_def assertion_id_def)
  have "map_of (output_doc t) ''id'' = v"
    unfolding ot f(1) using store_same [of "snd f" "''id''" v] inc by simp
  with render_other [OF c post] v show ?thesis by simp
qed

lemma id_generated:
  assumes f: "fields_for T = Inr fs" and t: "typed w ''id'' = None"
    and r: "render T w fs init = Inr s"
  shows "map_of (output_doc s) ''id'' = Some (assertion_id (uuid4 w 0))"
proof -
  from fields_for_cases [OF f] obtain rest where fs: "fs = core_fields @ rest"
    and no: "''id'' \<notin> fst ` set rest"
    using specific_no_id by blast
  from r obtain s1 where c: "render T w core_fields init = Inr s1"
    and p: "render T w rest s1 = Inr s"
    unfolding fs render_append by (auto split: sum.splits)
  from render_other [OF p no] id_untouched [OF t c] show ?thesis by simp
qed

lemma call_default_snd:
  "snd (call_default w meta n) = (if default meta = Some Lambda then Suc n else n)"
  by (simp add: call_default_def split: option.splits py_default.splits)

lemma select_widget_in:
  assumes "ftype meta = ''select''" and "options meta = Some opts" and "opts \<noteq> []"
  shows "\<exists>v. widget w key meta d = Inr (Some v, []) \<and> v \<in> set opts"
proof -
  define j where "j = (case list_index opts d of Some i \<Rightarrow> i | None \<Rightarrow> 0)"
  have j: "j < length opts"
    using assms(3) list_index_Some [of opts d]
    by (auto simp: j_def split: option.splits)
  define i where "i = (case picked w key of None \<Rightarrow> j
                        | Some i \<Rightarrow> if i < length opts then i else j)"
  have "i < length opts"
    using j by (simp add: i_def split: option.splits)
  then have "opts ! i \<in> set opts" by simp
  moreover have "widget w key meta d = Inr (Some (opts ! i), [])"
    using assms by (simp add: widget_def selectbox_def i_def j_def split: option.splits)
  ultimately show ?thesis by blast
qed

lemma fixed_stored:
  assumes run: "render ct w (pre @ (key, meta) # post) s0 = Inr s'"
    and kpost: "key \<notin> fst ` set post" and fixed: "ftype meta = ''fixed''"
  shows "\<exists>v. fixed_value ct meta = Inr v \<and> map_of (output_doc s') key = Some v"
proof -
  from render_split [OF run] obtain s1 t where b: "render_field ct w (key, meta) s1 = Inr t"
    and c: "render ct w post t = Inr s'"
    by blast
  have fx: "ftype (snd (key, meta)) = ''fixed''"
    using fixed by simp
  from render_field_fixed [OF fx b] obtain v where fv: "fixed_value ct meta = Inr v"
    and ot: "output_doc t = AList.update key v (output_doc s1)"
    by auto
  from render_other [OF c kpost] have "map_of (output_doc s') key = Some v"
    by (simp add: ot update_conv')
  with fv show ?thesis by blast
qed

lemma widget_empty_silent:
  "widget w key meta d = Inr (v, shown) \<Longrightarrow> \<not> truthy v \<Longrightarrow> shown = []"
  by (auto simp: widget_def truthy_def Let_def strip_Nil
        split: if_splits option.splits parse_result.splits)

lemma required_unread:
  "call_default w (m\<lparr>required := b\<rparr>) n = call_default w m n"
  "widget w k (m\<lparr>required := b\<rparr>) d = widget w k m d"
  "fixed_value ct (m\<lparr>required := b\<rparr>) = fixed_value ct m"
  "store (m\<lparr>required := b\<rparr>) k v out = store m k v out"
  by (simp_all add: call_default_def widget_def get_placeholder_def fixed_value_def
        store_def included_def)

lemma render_field_required:
  "render_field ct w (k, m\<lparr>required := b\<rparr>) s = render_field ct w (k, m) s"
  by (simp add: render_field_def Let_def required_unread split: sum.splits prod.splits)

lemma render_required:
  "render ct w (map (\<lambda>f. (fst f, (snd f)\<lparr>required := b\<rparr>)) fs) s = render ct w fs s"
proof (induction fs arbitrary: s)
  case Nil
  then show ?case by simp
next
  case (Cons f fs)
  have "render_field ct w (fst f, (snd f)\<lparr>required := b\<rparr>) s = render_field ct w f s"
    using render_field_required [where k = "fst f" and m = "snd f"] by simp
  with Cons.IH show ?case by (simp split: sum.splits)
qed

lemma render_field_total:
  assumes "well_formed (snd f)" and "\<forall>x e. ast_parse w x \<noteq> OtherError e"
  shows "\<exists>t. render_field ct w f s = Inr t"
proof (cases "ftype (snd f) = ''fixed''")
  case True
  with assms(1) have "\<exists>v. fixed_value ct (snd f) = Inr v"
    by (auto simp: well_formed_def fixed_value_def)
  then obtain v where "fixed_value ct (snd f) = Inr v" ..
  with True show ?thesis
    by (simp add: render_field_def Let_def)
next
  case False
  have "\<exists>v shown. widget w (fst f) (snd f) (fst (call_default w (snd f) (drawn s)))
      = Inr (v, shown)"
    using assms
    by (auto simp: well_formed_def widget_def Let_def split: parse_result.splits)
  with False show ?thesis
    by (auto simp: render_field_def Let_def)
qed

lemma render_total:
  assumes "\<forall>x e. ast_parse w x \<noteq> OtherError e"
  shows "\<forall>f \<in> set fs. well_formed (snd f) \<Longrightarrow> \<exists>r. render ct w fs s = Inr r"
proof (induction fs arbitrary: s)
  case Nil
  then show ?case by simp
next
  case (Cons f fs)
  from Cons.prems have "well_formed (snd f)" by simp
  from render_field_total [OF this assms] obtain t where "render_field ct w f s = Inr t"
    by blast
  moreover from Cons.IH Cons.prems obtain r where "render ct w fs t = Inr r"
    by auto
  ultimately show ?case by simp
qed

lemma registry_well_formed:
  "fields_for T = Inr fs \<Longrightarrow> \<forall>f \<in> set fs. well_formed (snd f)"
proof -
  assume "fields_for T = Inr fs"
  then have "fs = core_fields @ snd (schemas ! 0) \<or> fs = core_fields @ snd (schemas ! 1)"
    using fields_for_cases by blast
  then show ?thesis
    by (elim disjE) (simp_all add: core_fields_def schemas_def field_def well_formed_def)
qed

lemma registry_total:
  "fields_for T = Inr fs \<Longrightarrow> \<forall>x e. ast_parse w x \<noteq> OtherError e \<Longrightarrow>
   \<exists>r. render T w fs s = Inr r"
  using render_total registry_well_formed by blast

lemma registry_distinct:
  "fields_for T = Inr fs \<Longrightarrow> distinct (map fst fs)"
proof -
  assume "fields_for T = Inr fs"
  then have "fs = core_fields @ snd (schemas ! 0) \<or> fs = core_fields @ snd (schemas ! 1)"
    using fields_for_cases by blast
  then show ?thesis
    by (elim disjE) (simp_all add: core_fields_def schemas_def)
qed

lemma registry_select:
  "fields_for T = Inr fs \<Longrightarrow>
   \<forall>f \<in> set fs. ftype (snd f) = ''select'' \<longrightarrow>
     (\<exists>opts. options (snd f) = Some opts \<and> opts \<noteq> [] \<and> '''' \<notin> set opts)"
proof -
  assume "fields_for T = Inr fs"
  then have "fs = core_fields @ snd (schemas ! 0) \<or> fs = core_fields @ snd (schemas ! 1)"
    using fields_for_cases by blast
  then show ?thesis
    by (elim disjE)
      (simp_all add: core_fields_def schemas_def field_def known_processors_def)
qed

lemma registry_fixed:
  "fields_for T = Inr fs \<Longrightarrow>
   \<forall>f \<in> set fs. ftype (snd f) = ''fixed'' \<longrightarrow> fixed_value T (snd f) \<noteq> Inr ''''"
proof -
  assume "fields_for T = Inr fs"
  then have "(T = ''postproc_results'' \<and> fs = core_fields @ snd (schemas ! 0))
      \<or> (T = ''tabular_mdo_eval'' \<and> fs = core_fields @ snd (schemas ! 1))"
    by (rule fields_for_cases)
  then show ?thesis
    by (elim disjE conjE)
      (simp_all add: core_fields_def schemas_def field_def fixed_value_def)
qed

lemma registry_required:
  "fields_for T = Inr fs \<Longrightarrow> \<forall>f \<in> set fs. required (snd f) \<longrightarrow> \<not> optional (snd f)"
proof -
  assume "fields_for T = Inr fs"
  then have "fs = core_fields @ snd (schemas ! 0) \<or> fs = core_fields @ snd (schemas ! 1)"
    using fields_for_cases by blast
  then show ?thesis
    by (elim disjE) (simp_all add: core_fields_def schemas_def field_def)
qed

lemma t1_render:
  "render ''postproc_results'' (t1_world r p) (core_fields @ snd (schemas ! 0)) init
     = Inr (t1_state r)"
  by (simp add: t1_world_def t1_state_def schemas_def core_fields_def
        known_processors_def run_defs)

lemma blank_render:
  "render ''postproc_results'' blank_world (core_fields @ snd (schemas ! 0)) init
     = Inr blank_state"
  by (simp add: blank_world_def blank_state_def reject_all_def schemas_def core_fields_def
        known_processors_def run_defs)

subsection \<open>Rendering twice\<close>

text \<open>
  C8. Two runs of the loop on the fields of a check type, with the same entries in the
  widgets and the same parser but any two identifier sources, end with dictionaries that
  agree at every key other than \<open>id\<close>. Every identifier the callable generates is
  \<open>assertion_\<close> followed by exactly 8 hexadecimal characters, and when the \<open>id\<close> widget
  is left as it was created, the \<open>id\<close> of each run is the identifier generated in that
  run.
\<close>

theorem rerender:
  assumes "fields_for T = Inr fs"
    and "typed w2 = typed w1" and "picked w2 = picked w1" and "ast_parse w2 = ast_parse w1"
    and "render T w1 fs init = Inr s1" and "render T w2 fs init = Inr s2"
  shows "(\<forall>k. k \<noteq> ''id'' \<longrightarrow> map_of (output_doc s1) k = map_of (output_doc s2) k)
    \<and> (\<forall>u. id_pattern (assertion_id u))
    \<and> (typed w1 ''id'' = None \<longrightarrow>
         map_of (output_doc s1) ''id'' = Some (assertion_id (uuid4 w1 0))
         \<and> map_of (output_doc s2) ''id'' = Some (assertion_id (uuid4 w2 0)))"
proof -
  have "\<forall>k. k \<notin> {''id''} \<longrightarrow> map_of (output_doc s1) k = map_of (output_doc s2) k"
    by (rule render_agree [OF assms(2-4) assms(5) assms(6) lambda_only_id [OF assms(1)]]) simp
  then have one: "\<forall>k. k \<noteq> ''id'' \<longrightarrow> map_of (output_doc s1) k = map_of (output_doc s2) k"
    by simp
  have two: "typed w1 ''id'' = None \<longrightarrow>
         map_of (output_doc s1) ''id'' = Some (assertion_id (uuid4 w1 0))
         \<and> map_of (output_doc s2) ''id'' = Some (assertion_id (uuid4 w2 0))"
    using id_generated [OF assms(1) _ assms(5)] id_generated [OF assms(1) _ assms(6)] assms(2)
    by simp
  from one two id_pattern_assertion_id show ?thesis
    by blast
qed

text \<open>The theorem on the example run with two identifier sources.\<close>

theorem rerender_witness:
  "fields_for ''postproc_results'' = Inr (core_fields @ snd (schemas ! 0))
   \<and> typed (t1_world other_uuid accept_all) = typed (t1_world zero_uuid accept_all)
   \<and> picked (t1_world other_uuid accept_all) = picked (t1_world zero_uuid accept_all)
   \<and> ast_parse (t1_world other_uuid accept_all) = ast_parse (t1_world zero_uuid accept_all)
   \<and> render ''postproc_results'' (t1_world zero_uuid accept_all)
       (core_fields @ snd (schemas ! 0)) init = Inr (t1_state zero_uuid)
   \<and> render ''postproc_results'' (t1_world other_uuid accept_all)
       (core_fields @ snd (schemas ! 0)) init = Inr (t1_state other_uuid)
   \<and> map_of (output_doc (t1_state zero_uuid)) ''processor_key''
       = map_of (output_doc (t1_state other_uuid)) ''processor_key''
   \<and> map_of (output_doc (t1_state other_uuid)) ''id'' = Some (assertion_id (other_uuid 0))
   \<and> id_pattern (assertion_id (other_uuid 0))"
proof -
  let ?w1 = "t1_world zero_uuid accept_all" and ?w2 = "t1_world other_uuid accept_all"
  have e: "typed ?w2 = typed ?w1" "picked ?w2 = picked ?w1" "ast_parse ?w2 = ast_parse ?w1"
    by (simp_all add: t1_world_def)
  have r1: "render ''postproc_results'' ?w1 (core_fields @ snd (schemas ! 0)) init
      = Inr (t1_state zero_uuid)"
    by (rule t1_render)
  have r2: "render ''postproc_results'' ?w2 (core_fields @ snd (schemas ! 0)) init
      = Inr (t1_state other_uuid)"
    by (rule t1_render)
  have u: "typed ?w1 ''id'' = None" "uuid4 ?w2 0 = other_uuid 0"
    by (simp_all add: t1_world_def)
  note th = rerender [OF fields_postproc e r1 r2]
  from th have a: "map_of (output_doc (t1_state zero_uuid)) ''processor_key''
       = map_of (output_doc (t1_state other_uuid)) ''processor_key''"
    by simp
  from th u have b: "map_of (output_doc (t1_state other_uuid)) ''id''
      = Some (assertion_id (other_uuid 0))"
    by simp
  from th have c: "id_pattern (assertion_id (other_uuid 0))"
    by blast
  from fields_postproc e r1 r2 a b c show ?thesis by (intro conjI)
qed

subsection \<open>The inclusion rule\<close>

lemma stored_value:
  assumes run: "render ct w (pre @ (key, meta) # post) init = Inr s'"
    and keys: "distinct (map fst (pre @ (key, meta) # post))"
    and fixed_nonempty: "ftype meta = ''fixed'' \<longrightarrow> fixed_value ct meta \<noteq> Inr ''''"
  shows "\<exists>s1 v. render ct w pre init = Inr s1
      \<and> resolved ct w key meta (drawn s1) = Inr v
      \<and> map_of (output_doc s') key = (if included meta v then v else None)"
proof -
  from render_split [OF run] obtain s1 t where a: "render ct w pre init = Inr s1"
    and b: "render_field ct w (key, meta) s1 = Inr t"
    and c: "render ct w post t = Inr s'"
    by blast
  from keys have kpre: "key \<notin> fst ` set pre" and kpost: "key \<notin> fst ` set post"
    by auto
  from render_other [OF a kpre] have none: "map_of (output_doc s1) key = None"
    by (simp add: init_def)
  from render_other [OF c kpost]
  have fin: "map_of (output_doc s') key = map_of (output_doc t) key" .
  show ?thesis
  proof (cases "ftype meta = ''fixed''")
    case True
    then have fx: "ftype (snd (key, meta)) = ''fixed''" by simp
    from render_field_fixed [OF fx b] obtain v where fv: "fixed_value ct meta = Inr v"
      and ot: "output_doc t = AList.update key v (output_doc s1)"
      by auto
    from fv fixed_nonempty True have "v \<noteq> []" by auto
    then have inc: "included meta (Some v)"
      by (simp add: included_def truthy_def)
    have res: "resolved ct w key meta (drawn s1) = Inr (Some v)"
      by (simp add: resolved_def True fv)
    have "map_of (output_doc s') key = Some v"
      by (simp add: fin ot update_conv')
    with a res inc show ?thesis by auto
  next
    case False
    then have nf: "ftype (snd (key, meta)) \<noteq> ''fixed''" by simp
    from render_field_widget [OF nf b] obtain v shown where
      wv: "widget w key meta (fst (call_default w meta (drawn s1))) = Inr (v, shown)"
      and ot: "output_doc t = store meta key v (output_doc s1)"
      by auto
    have res: "resolved ct w key meta (drawn s1) = Inr v"
      by (simp add: resolved_def False wv)
    have "map_of (output_doc s') key = (if included meta v then v else None)"
      by (simp add: fin ot store_same none)
    with a res show ?thesis by blast
  qed
qed

lemma untouched_render:
  "render ''tabular_mdo_eval'' untouched_world (core_fields @ snd (schemas ! 1)) init
     = Inr untouched_state"
  by (simp add: untouched_world_def untouched_state_def schemas_def core_fields_def
        run_defs)

text \<open>
  C1. For every field of a run of the loop on a dictionary of fields (distinct keys),
  with \<open>v\<close> the field's resolved value (\<open>None\<close> is Python's \<^verbatim>\<open>None\<close>): the field is a key of
  the final dictionary exactly when \<open>v\<close> is a text that is not empty, or the descriptor is
  marked optional and \<open>v\<close> is the empty text. In detail: a text that is not empty is
  stored; the empty text is stored when the descriptor is marked optional and there is
  no entry when it is not; and there is no entry for \<^verbatim>\<open>None\<close>. A fixed field is stored by
  line 63 without this test; the statement covers it when its value is not empty, as it
  is for every fixed field of the script (lemma \<open>registry_fixed\<close>).
\<close>

theorem inclusion_rule:
  assumes run: "render ct w (pre @ (key, meta) # post) init = Inr s'"
    and keys: "distinct (map fst (pre @ (key, meta) # post))"
    and fixed_nonempty: "ftype meta = ''fixed'' \<longrightarrow> fixed_value ct meta \<noteq> Inr ''''"
  shows "\<exists>s1 v. render ct w pre init = Inr s1
      \<and> resolved ct w key meta (drawn s1) = Inr v
      \<and> (key \<in> fst ` set (output_doc s') \<longleftrightarrow>
           (\<exists>x. v = Some x \<and> x \<noteq> '''') \<or> (optional meta \<and> v = Some ''''))
      \<and> (\<forall>x. v = Some x \<and> x \<noteq> '''' \<longrightarrow> map_of (output_doc s') key = Some x)
      \<and> (v = Some '''' \<and> optional meta \<longrightarrow> map_of (output_doc s') key = Some '''')
      \<and> (v = Some '''' \<and> \<not> optional meta \<longrightarrow> map_of (output_doc s') key = None)
      \<and> (v = None \<longrightarrow> map_of (output_doc s') key = None)"
proof -
  from stored_value [OF run keys fixed_nonempty] obtain s1 v where
    a: "render ct w pre init = Inr s1"
    and b: "resolved ct w key meta (drawn s1) = Inr v"
    and c: "map_of (output_doc s') key = (if included meta v then v else None)"
    by blast
  have m: "key \<in> fst ` set (output_doc s') \<longleftrightarrow> map_of (output_doc s') key \<noteq> None"
    by (simp add: map_of_eq_None_iff)
  have one: "key \<in> fst ` set (output_doc s') \<longleftrightarrow>
           (\<exists>x. v = Some x \<and> x \<noteq> '''') \<or> (optional meta \<and> v = Some '''')"
    unfolding m c by (cases v) (auto simp: included_def truthy_def)
  have two: "\<forall>x. v = Some x \<and> x \<noteq> '''' \<longrightarrow> map_of (output_doc s') key = Some x"
    unfolding c by (simp add: included_def truthy_def)
  have three: "v = Some '''' \<and> optional meta \<longrightarrow> map_of (output_doc s') key = Some ''''"
    unfolding c by (simp add: included_def truthy_def)
  have four: "v = Some '''' \<and> \<not> optional meta \<longrightarrow> map_of (output_doc s') key = None"
    unfolding c by (simp add: included_def truthy_def)
  have five: "v = None \<longrightarrow> map_of (output_doc s') key = None"
    unfolding c by (simp add: included_def truthy_def)
  from a b one two three four five show ?thesis
    by blast
qed

text \<open>
  The theorem at three fields. In the example run: \<open>name\<close>, entered as \<open>t1\<close>, is stored,
  and \<open>stat\<close>, left empty and not optional, has no entry. In the run of
  \<open>tabular_mdo_eval\<close> with nothing touched: \<open>comment_character\<close>, left empty and marked
  optional, is stored as the empty text.
\<close>

theorem inclusion_rule_witness:
  "render ''postproc_results'' (t1_world zero_uuid accept_all)
     ([] @ (''name'', snd (core_fields ! 0)) # (tl core_fields @ snd (schemas ! 0))) init
     = Inr (t1_state zero_uuid)
   \<and> distinct (map fst ([] @ (''name'', snd (core_fields ! 0))
        # (tl core_fields @ snd (schemas ! 0))))
   \<and> ftype (snd (core_fields ! 0)) \<noteq> ''fixed''
   \<and> resolved ''postproc_results'' (t1_world zero_uuid accept_all) ''name''
        (snd (core_fields ! 0)) 0 = Inr (Some ''t1'')
   \<and> map_of (output_doc (t1_state zero_uuid)) ''name'' = Some ''t1''
   \<and> render ''postproc_results'' (t1_world zero_uuid accept_all)
     ((core_fields @ take 1 (snd (schemas ! 0)))
        @ (''stat'', snd (snd (schemas ! 0) ! 1)) # drop 2 (snd (schemas ! 0))) init
     = Inr (t1_state zero_uuid)
   \<and> distinct (map fst ((core_fields @ take 1 (snd (schemas ! 0)))
        @ (''stat'', snd (snd (schemas ! 0) ! 1)) # drop 2 (snd (schemas ! 0))))
   \<and> ftype (snd (snd (schemas ! 0) ! 1)) \<noteq> ''fixed''
   \<and> resolved ''postproc_results'' (t1_world zero_uuid accept_all) ''stat''
        (snd (snd (schemas ! 0) ! 1)) 1 = Inr (Some '''')
   \<and> \<not> optional (snd (snd (schemas ! 0) ! 1))
   \<and> map_of (output_doc (t1_state zero_uuid)) ''stat'' = None
   \<and> ''stat'' \<notin> fst ` set (output_doc (t1_state zero_uuid))
   \<and> render ''tabular_mdo_eval'' untouched_world
     ((core_fields @ take 3 (snd (schemas ! 1)))
        @ (''comment_character'', snd (snd (schemas ! 1) ! 3)) # []) init
     = Inr untouched_state
   \<and> distinct (map fst ((core_fields @ take 3 (snd (schemas ! 1)))
        @ (''comment_character'', snd (snd (schemas ! 1) ! 3)) # []))
   \<and> ftype (snd (snd (schemas ! 1) ! 3)) \<noteq> ''fixed''
   \<and> resolved ''tabular_mdo_eval'' untouched_world ''comment_character''
        (snd (snd (schemas ! 1) ! 3)) 1 = Inr (Some '''')
   \<and> optional (snd (snd (schemas ! 1) ! 3))
   \<and> map_of (output_doc untouched_state) ''comment_character'' = Some ''''
   \<and> ''comment_character'' \<in> fst ` set (output_doc untouched_state)"
proof -
  let ?w = "t1_world zero_uuid accept_all"
  define nm where "nm = snd (core_fields ! 0)"
  define st where "st = snd (snd (schemas ! 0) ! 1)"
  define cc where "cc = snd (snd (schemas ! 1) ! 3)"
  have nm: "nm = (field ''string'')\<lparr>required := True\<rparr>"
    by (simp add: nm_def core_fields_def)
  have st: "ftype st = ''expression''" "\<not> optional st" "default st = None"
    by (simp_all add: st_def schemas_def field_def)
  have cc: "ftype cc = ''string''" "optional cc" "default cc = None"
    by (simp_all add: cc_def schemas_def field_def)
  have l1: "[] @ (''name'', nm) # (tl core_fields @ snd (schemas ! 0))
      = core_fields @ snd (schemas ! 0)"
    by (simp add: nm_def core_fields_def)
  have l2: "(core_fields @ take 1 (snd (schemas ! 0)))
        @ (''stat'', st) # drop 2 (snd (schemas ! 0)) = core_fields @ snd (schemas ! 0)"
    by (simp add: st_def schemas_def)
  have l3: "(core_fields @ take 3 (snd (schemas ! 1)))
        @ (''comment_character'', cc) # [] = core_fields @ snd (schemas ! 1)"
    by (simp add: cc_def schemas_def)
  have d0: "distinct (map fst (core_fields @ snd (schemas ! 0)))"
    by (simp add: core_fields_def schemas_def)
  have d1: "distinct (map fst (core_fields @ snd (schemas ! 1)))"
    by (simp add: core_fields_def schemas_def)
  have run1: "render ''postproc_results'' ?w
      ([] @ (''name'', nm) # (tl core_fields @ snd (schemas ! 0))) init
      = Inr (t1_state zero_uuid)"
    unfolding l1 by (rule t1_render)
  have keys1: "distinct (map fst ([] @ (''name'', nm) # (tl core_fields @ snd (schemas ! 0))))"
    unfolding l1 by (rule d0)
  have k1: "ftype nm \<noteq> ''fixed''"
    by (simp add: nm field_def)
  have r1: "resolved ''postproc_results'' ?w ''name'' nm n = Inr (Some ''t1'')" for n
    by (simp add: resolved_def widget_def call_default_def text_input_def t1_world_def
          nm field_def)
  have run2: "render ''postproc_results'' ?w
      ((core_fields @ take 1 (snd (schemas ! 0)))
        @ (''stat'', st) # drop 2 (snd (schemas ! 0))) init = Inr (t1_state zero_uuid)"
    unfolding l2 by (rule t1_render)
  have keys2: "distinct (map fst ((core_fields @ take 1 (snd (schemas ! 0)))
        @ (''stat'', st) # drop 2 (snd (schemas ! 0))))"
    unfolding l2 by (rule d0)
  have k2: "ftype st \<noteq> ''fixed''"
    by (simp add: st)
  have r2: "resolved ''postproc_results'' ?w ''stat'' st n = Inr (Some '''')" for n
    by (simp add: resolved_def widget_def call_default_def text_area_def t1_world_def
          st strip_Nil Let_def)
  have run3: "render ''tabular_mdo_eval'' untouched_world
      ((core_fields @ take 3 (snd (schemas ! 1)))
        @ (''comment_character'', cc) # []) init = Inr untouched_state"
    unfolding l3 by (rule untouched_render)
  have keys3: "distinct (map fst ((core_fields @ take 3 (snd (schemas ! 1)))
        @ (''comment_character'', cc) # []))"
    unfolding l3 by (rule d1)
  have k3: "ftype cc \<noteq> ''fixed''"
    by (simp add: cc)
  have r3: "resolved ''tabular_mdo_eval'' untouched_world ''comment_character'' cc n
      = Inr (Some '''')" for n
    by (simp add: resolved_def widget_def call_default_def text_input_def
          untouched_world_def cc)
  from inclusion_rule [OF run1 keys1] k1 r1
  have a: "map_of (output_doc (t1_state zero_uuid)) ''name'' = Some ''t1''"
    by auto
  from inclusion_rule [OF run2 keys2] k2 r2 st(2)
  have b: "map_of (output_doc (t1_state zero_uuid)) ''stat'' = None
      \<and> ''stat'' \<notin> fst ` set (output_doc (t1_state zero_uuid))"
    by auto
  from inclusion_rule [OF run3 keys3] k3 r3 cc(2)
  have c: "map_of (output_doc untouched_state) ''comment_character'' = Some ''''
      \<and> ''comment_character'' \<in> fst ` set (output_doc untouched_state)"
    by auto
  from run1 keys1 k1 r1 a run2 keys2 k2 r2 st(2) b run3 keys3 k3 r3 cc(2) c
  show ?thesis
    unfolding nm_def st_def cc_def by (intro conjI) blast+
qed

subsection \<open>Fixed fields\<close>

lemma check_type_value:
  assumes f: "fields_for T = Inr fs" and r: "render T w fs s0 = Inr s"
  shows "map_of (output_doc s) ''check_type'' = Some T"
proof -
  define f where "f = core_fields ! 3"
  have ff: "fst f = ''check_type''" "ftype (snd f) = ''fixed''" "value_from_parent (snd f)"
    by (simp_all add: f_def core_fields_def field_def)
  from fields_for_cases [OF f] obtain rest where fs: "fs = core_fields @ rest"
    and no: "''check_type'' \<notin> fst ` set rest"
    by (auto simp: schemas_def)
  have l: "take 3 core_fields @ (''check_type'', snd f) # rest = fs"
    unfolding fs by (simp add: f_def core_fields_def)
  have "render T w (take 3 core_fields @ (''check_type'', snd f) # rest) s0 = Inr s"
    unfolding l by (rule r)
  from fixed_stored [OF this no ff(2)] obtain v where "fixed_value T (snd f) = Inr v"
    and "map_of (output_doc s) ''check_type'' = Some v"
    by blast
  with ff(3) show ?thesis
    by (simp add: fixed_value_def)
qed

text \<open>
  C7. For every fixed field of a run of the loop, the dictionary holds the check type
  when the descriptor is flagged \<^verbatim>\<open>value_from_parent\<close> and the configured value
  otherwise, whatever that value is; the pass of the field does not depend on the
  widgets; and after a run on the fields of a check type \<open>T\<close> the entry \<open>check_type\<close> is
  \<open>T\<close>.
\<close>

theorem fixed_field:
  assumes "render ct w (pre @ (key, meta) # post) s0 = Inr s'"
    and "key \<notin> fst ` set post" and "ftype meta = ''fixed''"
  shows "(\<exists>v. fixed_value ct meta = Inr v \<and> map_of (output_doc s') key = Some v
        \<and> (value_from_parent meta \<longrightarrow> v = ct)
        \<and> (\<not> value_from_parent meta \<longrightarrow> val meta = Some v))
    \<and> (\<forall>w' s. render_field ct w' (key, meta) s = render_field ct w (key, meta) s)
    \<and> (\<forall>T fs u r. fields_for T = Inr fs \<and> render T u fs init = Inr r
          \<longrightarrow> map_of (output_doc r) ''check_type'' = Some T)"
proof -
  from fixed_stored [OF assms] obtain v where fv: "fixed_value ct meta = Inr v"
    and st: "map_of (output_doc s') key = Some v"
    by blast
  from fv have "(value_from_parent meta \<longrightarrow> v = ct)
        \<and> (\<not> value_from_parent meta \<longrightarrow> val meta = Some v)"
    by (auto simp: fixed_value_def split: option.splits if_splits)
  with fv st have one: "\<exists>v. fixed_value ct meta = Inr v \<and> map_of (output_doc s') key = Some v
        \<and> (value_from_parent meta \<longrightarrow> v = ct)
        \<and> (\<not> value_from_parent meta \<longrightarrow> val meta = Some v)"
    by blast
  have two: "\<forall>w' s. render_field ct w' (key, meta) s = render_field ct w (key, meta) s"
    using assms(3) by (simp add: render_field_def Let_def call_default_snd)
  have three: "\<forall>T fs u r. fields_for T = Inr fs \<and> render T u fs init = Inr r
          \<longrightarrow> map_of (output_doc r) ''check_type'' = Some T"
    using check_type_value by blast
  from one two three show ?thesis by (intro conjI)
qed

text \<open>The theorem at \<open>item_typ1e\<close>, the last field of the example run.\<close>

theorem fixed_field_witness:
  "render ''postproc_results'' (t1_world zero_uuid accept_all)
     ((core_fields @ take 3 (snd (schemas ! 0)))
        @ (''item_typ1e'', snd (snd (schemas ! 0) ! 3)) # []) init
     = Inr (t1_state zero_uuid)
   \<and> ''item_typ1e'' \<notin> fst ` set []
   \<and> ftype (snd (snd (schemas ! 0) ! 3)) = ''fixed''
   \<and> map_of (output_doc (t1_state zero_uuid)) ''item_typ1e'' = Some ''outputfile''
   \<and> map_of (output_doc (t1_state zero_uuid)) ''check_type'' = Some ''postproc_results''"
proof -
  have l: "(core_fields @ take 3 (snd (schemas ! 0)))
        @ (''item_typ1e'', snd (snd (schemas ! 0) ! 3)) # []
      = core_fields @ snd (schemas ! 0)"
    by (simp add: schemas_def)
  have run: "render ''postproc_results'' (t1_world zero_uuid accept_all)
     ((core_fields @ take 3 (snd (schemas ! 0)))
        @ (''item_typ1e'', snd (snd (schemas ! 0) ! 3)) # []) init
     = Inr (t1_state zero_uuid)"
    unfolding l by (rule t1_render)
  have run': "render ''postproc_results'' (t1_world zero_uuid accept_all)
     (core_fields @ snd (schemas ! 0)) init = Inr (t1_state zero_uuid)"
    by (rule t1_render)
  have no: "''item_typ1e'' \<notin> fst ` set []" by simp
  have k: "ftype (snd (snd (schemas ! 0) ! 3)) = ''fixed''"
    by (simp add: schemas_def field_def)
  have v: "val (snd (snd (schemas ! 0) ! 3)) = Some ''outputfile''"
    "\<not> value_from_parent (snd (snd (schemas ! 0) ! 3))"
    by (simp_all add: schemas_def field_def)
  note th = fixed_field [OF run no k]
  from th v have a: "map_of (output_doc (t1_state zero_uuid)) ''item_typ1e'' = Some ''outputfile''"
    by auto
  from th fields_postproc run'
  have b: "map_of (output_doc (t1_state zero_uuid)) ''check_type'' = Some ''postproc_results''"
    by blast
  from run no k a b show ?thesis by (intro conjI)
qed

subsection \<open>The flag \<open>required\<close>\<close>

lemma name_omitted:
  assumes f: "fields_for T = Inr fs" and r: "render T w fs init = Inr s"
    and e: "typed w ''name'' = None \<or> typed w ''name'' = Some ''''"
  shows "map_of (output_doc s) ''name'' = None"
proof -
  define f where "f = core_fields ! 0"
  have ff: "fst f = ''name''" "ftype (snd f) = ''string''" "default (snd f) = None"
    "\<not> optional (snd f)"
    by (simp_all add: f_def core_fields_def field_def)
  from fields_for_cases [OF f] obtain rest where fs: "fs = core_fields @ rest"
    and no: "''name'' \<notin> fst ` set rest"
    by (auto simp: schemas_def)
  have l: "f # (drop 1 core_fields @ rest) = fs"
    unfolding fs by (simp add: f_def core_fields_def)
  have no': "''name'' \<notin> fst ` set (drop 1 core_fields @ rest)"
    using no by (simp add: core_fields_def)
  have "render T w (f # (drop 1 core_fields @ rest)) init = Inr s"
    unfolding l by (rule r)
  then obtain t where b: "render_field T w f init = Inr t"
    and c: "render T w (drop 1 core_fields @ rest) t = Inr s"
    by (auto split: sum.splits)
  have nf: "ftype (snd f) \<noteq> ''fixed''"
    by (simp add: ff(2))
  from render_field_widget [OF nf b] obtain v shown where
    wv: "widget w (fst f) (snd f) (fst (call_default w (snd f) (drawn init))) = Inr (v, shown)"
    and ot: "output_doc t = store (snd f) (fst f) v (output_doc init)"
    by auto
  have d: "fst (call_default w (snd f) (drawn init)) = ''''"
    by (simp add: call_default_def ff(3))
  from wv e have v: "v = Some ''''"
    unfolding d by (auto simp: widget_def ff text_input_def)
  have "\<not> included (snd f) v"
    by (simp add: v included_def truthy_def ff(4))
  then have "map_of (output_doc t) ''name'' = None"
    unfolding ot ff(1) by (simp add: store_same init_def)
  with render_other [OF c no'] show ?thesis by simp
qed

text \<open>
  C9. The loop never reads \<^verbatim>\<open>required\<close>: changing the flag in every descriptor changes
  nothing. For a field marked required (and not optional, as the required fields of the
  script are, lemma \<open>registry_required\<close>) whose value is empty, the pass of the field
  raises nothing, shows nothing and stores nothing, and the final dictionary has no
  entry for it. For both check types the loop ends with a dictionary whenever the parser
  raises nothing but \<^verbatim>\<open>SyntaxError\<close>, and that dictionary has no \<open>name\<close> when the name
  is left empty.
\<close>

theorem required_not_enforced:
  assumes run: "render ct w (pre @ (key, meta) # post) init = Inr s'"
    and keys: "distinct (map fst (pre @ (key, meta) # post))"
    and req: "required meta" and nopt: "\<not> optional meta"
    and kind: "ftype meta \<noteq> ''fixed''"
  shows "(\<exists>s1 v shown. render ct w pre init = Inr s1
        \<and> widget w key meta (fst (call_default w meta (drawn s1))) = Inr (v, shown)
        \<and> (\<not> truthy v \<longrightarrow>
             map_of (output_doc s') key = None \<and> shown = []
             \<and> render_field ct w (key, meta) s1
                 = Inr (s1\<lparr>drawn := snd (call_default w meta (drawn s1))\<rparr>)))
    \<and> (\<forall>b fs s. render ct w (map (\<lambda>f. (fst f, (snd f)\<lparr>required := b\<rparr>)) fs) s
          = render ct w fs s)
    \<and> (\<forall>T fs (u::world). fields_for T = Inr fs \<and> (\<forall>x e. ast_parse u x \<noteq> OtherError e) \<longrightarrow>
          (\<exists>r. render T u fs init = Inr r
             \<and> (typed u ''name'' = None \<or> typed u ''name'' = Some ''''
                  \<longrightarrow> map_of (output_doc r) ''name'' = None)))"
proof -
  from render_split [OF run] obtain s1 t where a: "render ct w pre init = Inr s1"
    and b: "render_field ct w (key, meta) s1 = Inr t"
    and c: "render ct w post t = Inr s'"
    by blast
  from keys have kpre: "key \<notin> fst ` set pre" and kpost: "key \<notin> fst ` set post"
    by auto
  from render_other [OF a kpre] have none: "map_of (output_doc s1) key = None"
    by (simp add: init_def)
  from kind have nf: "ftype (snd (key, meta)) \<noteq> ''fixed''" by simp
  from render_field_widget [OF nf b] obtain v shown where
    wv: "widget w key meta (fst (call_default w meta (drawn s1))) = Inr (v, shown)"
    and t: "t = \<lparr>output_doc = store meta key v (output_doc s1),
            alerts = alerts s1 @ shown, drawn = snd (call_default w meta (drawn s1))\<rparr>"
    by auto
  have "map_of (output_doc s') key = None \<and> shown = []
      \<and> render_field ct w (key, meta) s1
          = Inr (s1\<lparr>drawn := snd (call_default w meta (drawn s1))\<rparr>)"
    if empty: "\<not> truthy v"
  proof -
    from empty nopt have ni: "\<not> included meta v"
      by (auto simp: included_def truthy_def)
    then have st: "store meta key v (output_doc s1) = output_doc s1"
      by (simp add: store_def)
    from widget_empty_silent [OF wv empty] have sh: "shown = []" .
    from render_other [OF c kpost] have "map_of (output_doc s') key = None"
      by (simp add: t st none)
    moreover have "render_field ct w (key, meta) s1
          = Inr (s1\<lparr>drawn := snd (call_default w meta (drawn s1))\<rparr>)"
      unfolding b t st sh by simp
    ultimately show ?thesis using sh by simp
  qed
  with a wv have one: "\<exists>s1 v shown. render ct w pre init = Inr s1
        \<and> widget w key meta (fst (call_default w meta (drawn s1))) = Inr (v, shown)
        \<and> (\<not> truthy v \<longrightarrow>
             map_of (output_doc s') key = None \<and> shown = []
             \<and> render_field ct w (key, meta) s1
                 = Inr (s1\<lparr>drawn := snd (call_default w meta (drawn s1))\<rparr>))"
    by blast
  have two: "\<forall>b fs s. render ct w (map (\<lambda>f. (fst f, (snd f)\<lparr>required := b\<rparr>)) fs) s
          = render ct w fs s"
    by (simp add: render_required)
  have three: "\<forall>T fs (u::world). fields_for T = Inr fs \<and> (\<forall>x e. ast_parse u x \<noteq> OtherError e) \<longrightarrow>
          (\<exists>r. render T u fs init = Inr r
             \<and> (typed u ''name'' = None \<or> typed u ''name'' = Some ''''
                  \<longrightarrow> map_of (output_doc r) ''name'' = None))"
  proof (intro allI impI)
    fix T fs and u :: world
    assume h: "fields_for T = Inr fs \<and> (\<forall>x e. ast_parse u x \<noteq> OtherError e)"
    then obtain r where r: "render T u fs init = Inr r"
      using registry_total by blast
    with h name_omitted show "\<exists>r. render T u fs init = Inr r
             \<and> (typed u ''name'' = None \<or> typed u ''name'' = Some ''''
                  \<longrightarrow> map_of (output_doc r) ''name'' = None)"
      by blast
  qed
  from one two three show ?thesis by (intro conjI)
qed

text \<open>The theorem at \<open>name\<close> in the run where only \<open>stat\<close> was entered.\<close>

theorem required_not_enforced_witness:
  "render ''postproc_results'' blank_world
     ([] @ (''name'', snd (core_fields ! 0)) # (drop 1 core_fields @ snd (schemas ! 0))) init
     = Inr blank_state
   \<and> distinct (map fst
       ([] @ (''name'', snd (core_fields ! 0)) # (drop 1 core_fields @ snd (schemas ! 0))))
   \<and> required (snd (core_fields ! 0)) \<and> \<not> optional (snd (core_fields ! 0))
   \<and> ftype (snd (core_fields ! 0)) \<noteq> ''fixed''
   \<and> widget blank_world ''name'' (snd (core_fields ! 0)) '''' = Inr (Some '''', [])
   \<and> map_of (output_doc blank_state) ''name'' = None"
proof -
  let ?fs = "[] @ (''name'', snd (core_fields ! 0)) # (drop 1 core_fields @ snd (schemas ! 0))"
  have l: "?fs = core_fields @ snd (schemas ! 0)"
    by (simp add: core_fields_def)
  have run: "render ''postproc_results'' blank_world ?fs init = Inr blank_state"
    unfolding l by (rule blank_render)
  have keys: "distinct (map fst ?fs)"
    unfolding l by (simp add: core_fields_def schemas_def)
  have m: "required (snd (core_fields ! 0))" "\<not> optional (snd (core_fields ! 0))"
    "ftype (snd (core_fields ! 0)) \<noteq> ''fixed''"
    by (simp_all add: core_fields_def field_def)
  have wv: "widget blank_world ''name'' (snd (core_fields ! 0)) '''' = Inr (Some '''', [])"
    by (simp add: widget_def text_input_def blank_world_def core_fields_def field_def)
  have p: "render ''postproc_results'' blank_world [] init = Inr init"
    by simp
  have d: "fst (call_default blank_world (snd (core_fields ! 0)) (drawn init)) = ''''"
    by (simp add: call_default_def core_fields_def field_def)
  from required_not_enforced [OF run keys m]
  obtain s1 v shown where a: "render ''postproc_results'' blank_world [] init = Inr s1"
    and b: "widget blank_world ''name'' (snd (core_fields ! 0))
          (fst (call_default blank_world (snd (core_fields ! 0)) (drawn s1))) = Inr (v, shown)"
    and c: "\<not> truthy v \<longrightarrow> map_of (output_doc blank_state) ''name'' = None \<and> shown = []
        \<and> render_field ''postproc_results'' blank_world (''name'', snd (core_fields ! 0)) s1
          = Inr (s1\<lparr>drawn := snd (call_default blank_world (snd (core_fields ! 0)) (drawn s1))\<rparr>)"
    by (elim conjE exE)
  from a have s1: "s1 = init" by simp
  from b wv have "v = Some ''''"
    unfolding s1 d by simp
  with c have "map_of (output_doc blank_state) ''name'' = None"
    by (simp add: truthy_def)
  with run keys m wv show ?thesis by (intro conjI)
qed

subsection \<open>Select fields in the dictionary\<close>

lemma select_stored:
  assumes run: "render ct w fs s0 = Inr s'" and d: "distinct (map fst fs)"
    and mem: "(key, meta) \<in> set fs" and sel: "ftype meta = ''select''"
    and o: "options meta = Some opts" and ne: "opts \<noteq> []" and nb: "'''' \<notin> set opts"
  shows "\<exists>v. map_of (output_doc s') key = Some v \<and> v \<in> set opts \<and> v \<noteq> ''''"
proof -
  from split_list [OF mem] obtain pre post where fs: "fs = pre @ (key, meta) # post"
    by blast
  from d have kpost: "key \<notin> fst ` set post"
    unfolding fs by auto
  from run render_split [of ct w pre "(key, meta)" post s0 s'] obtain s1 t
    where b: "render_field ct w (key, meta) s1 = Inr t"
      and c: "render ct w post t = Inr s'"
    unfolding fs by blast
  have nf: "ftype (snd (key, meta)) \<noteq> ''fixed''"
    by (simp add: sel)
  from render_field_widget [OF nf b] obtain v shown where
    wv: "widget w key meta (fst (call_default w meta (drawn s1))) = Inr (v, shown)"
    and ot: "output_doc t = store meta key v (output_doc s1)"
    by auto
  from select_widget_in [OF sel o ne] obtain x where
    x: "widget w key meta (fst (call_default w meta (drawn s1))) = Inr (Some x, [])"
    and xin: "x \<in> set opts"
    by blast
  from wv x have v: "v = Some x" by simp
  from xin nb have xne: "x \<noteq> ''''" by auto
  then have "included meta v"
    by (simp add: v included_def truthy_def)
  then have "map_of (output_doc t) key = Some x"
    unfolding ot by (simp add: store_same v)
  with render_other [OF c kpost] xin xne show ?thesis by simp
qed

lemma registry_members:
  assumes "fields_for T = Inr fs"
  shows "(''failtype'', snd (core_fields ! 2)) \<in> set fs"
    and "T = ''postproc_results'' \<Longrightarrow> (''processor_key'', snd (snd (schemas ! 0) ! 0)) \<in> set fs"
proof -
  from fields_for_cases [OF assms]
  have c: "(T = ''postproc_results'' \<and> fs = core_fields @ snd (schemas ! 0))
      \<or> (T = ''tabular_mdo_eval'' \<and> fs = core_fields @ snd (schemas ! 1))" .
  then have "\<exists>rest. fs = core_fields @ rest" by blast
  then show "(''failtype'', snd (core_fields ! 2)) \<in> set fs"
    by (auto simp: core_fields_def)
  show "(''processor_key'', snd (snd (schemas ! 0) ! 0)) \<in> set fs" if "T = ''postproc_results''"
  proof -
    from c that have "fs = core_fields @ snd (schemas ! 0)" by auto
    then show ?thesis by (simp add: schemas_def)
  qed
qed

lemma select_facts:
  "ftype (snd (core_fields ! 2)) = ''select''"
  "options (snd (core_fields ! 2)) = Some [''fail'', ''warn'']"
  "ftype (snd (snd (schemas ! 0) ! 0)) = ''select''"
  "options (snd (snd (schemas ! 0) ! 0)) = Some known_processors"
  "known_processors \<noteq> []" "'''' \<notin> set known_processors"
  by (simp_all add: core_fields_def schemas_def field_def known_processors_def)

text \<open>
  C10. After a run of the loop on the fields of a check type, every select field has an
  entry in the dictionary, the entry is one of the descriptor's options and is not
  empty; so \<open>failtype\<close> is present and is \<open>fail\<close> or \<open>warn\<close>, and for \<open>postproc_results\<close>
  \<open>processor_key\<close> is present and is one of the known processors.
\<close>

theorem select_invariant:
  assumes f: "fields_for T = Inr fs" and run: "render T w fs init = Inr s'"
    and mem: "(key, meta) \<in> set fs" and sel: "ftype meta = ''select''"
  shows "(\<exists>opts v. options meta = Some opts \<and> map_of (output_doc s') key = Some v
        \<and> v \<in> set opts \<and> v \<noteq> '''')
    \<and> (\<exists>v. map_of (output_doc s') ''failtype'' = Some v \<and> (v = ''fail'' \<or> v = ''warn''))
    \<and> (T = ''postproc_results'' \<longrightarrow>
         (\<exists>v. map_of (output_doc s') ''processor_key'' = Some v \<and> v \<in> set known_processors))"
proof -
  note d = registry_distinct [OF f]
  from registry_select [OF f] mem sel
  have "\<exists>opts. options meta = Some opts \<and> opts \<noteq> [] \<and> '''' \<notin> set opts"
    by fastforce
  then obtain opts where o: "options meta = Some opts" "opts \<noteq> []" "'''' \<notin> set opts"
    by blast
  from select_stored [OF run d mem sel o] o(1)
  have one: "\<exists>opts v. options meta = Some opts \<and> map_of (output_doc s') key = Some v
        \<and> v \<in> set opts \<and> v \<noteq> ''''"
    by blast
  have "\<exists>v. map_of (output_doc s') ''failtype'' = Some v \<and> v \<in> set [''fail'', ''warn'']
      \<and> v \<noteq> ''''"
    by (rule select_stored [OF run d registry_members(1) [OF f] select_facts(1, 2)]) simp_all
  then have two: "\<exists>v. map_of (output_doc s') ''failtype'' = Some v
      \<and> (v = ''fail'' \<or> v = ''warn'')"
    by auto
  have three: "T = ''postproc_results'' \<longrightarrow>
         (\<exists>v. map_of (output_doc s') ''processor_key'' = Some v \<and> v \<in> set known_processors)"
  proof
    assume t: "T = ''postproc_results''"
    from select_stored [OF run d registry_members(2) [OF f t] select_facts(3, 4, 5, 6)]
    show "\<exists>v. map_of (output_doc s') ''processor_key'' = Some v \<and> v \<in> set known_processors"
      by blast
  qed
  from one two three show ?thesis by (intro conjI)
qed

text \<open>The theorem at \<open>processor_key\<close> in the example run.\<close>

theorem select_invariant_witness:
  "fields_for ''postproc_results'' = Inr (core_fields @ snd (schemas ! 0))
   \<and> render ''postproc_results'' (t1_world zero_uuid accept_all)
       (core_fields @ snd (schemas ! 0)) init = Inr (t1_state zero_uuid)
   \<and> (''processor_key'', snd (snd (schemas ! 0) ! 0)) \<in> set (core_fields @ snd (schemas ! 0))
   \<and> ftype (snd (snd (schemas ! 0) ! 0)) = ''select''
   \<and> (\<exists>v. map_of (output_doc (t1_state zero_uuid)) ''processor_key'' = Some v
          \<and> v \<in> set known_processors)
   \<and> (\<exists>v. map_of (output_doc (t1_state zero_uuid)) ''failtype'' = Some v
          \<and> (v = ''fail'' \<or> v = ''warn''))"
proof -
  have run: "render ''postproc_results'' (t1_world zero_uuid accept_all)
       (core_fields @ snd (schemas ! 0)) init = Inr (t1_state zero_uuid)"
    by (rule t1_render)
  have mem: "(''processor_key'', snd (snd (schemas ! 0) ! 0))
      \<in> set (core_fields @ snd (schemas ! 0))"
    by (simp add: schemas_def)
  note th = select_invariant [OF fields_postproc run mem select_facts(3)]
  from th have a: "\<exists>v. map_of (output_doc (t1_state zero_uuid)) ''processor_key'' = Some v
          \<and> v \<in> set known_processors"
    by blast
  from th have b: "\<exists>v. map_of (output_doc (t1_state zero_uuid)) ''failtype'' = Some v
          \<and> (v = ''fail'' \<or> v = ''warn'')"
    by blast
  from fields_postproc run mem select_facts(3) a b show ?thesis by (intro conjI)
qed

end
